theory Spec2Isabelle
  imports Complex_Main "HOL-Library.Sublist"
begin

section \<open>Python values shared by the modules\<close>

text \<open>
  A Python \<open>str\<close> is a sequence of code points and \<open>len\<close> counts them. The model writes a
  \<open>str\<close> as a \<open>string\<close>, one \<open>char\<close> per code point, which covers the code points below
  256 (the Latin-1 range of the catalogue's Portuguese headers: U+00E7 and U+00E3 are
  single characters).

  Exceptions are values: a function that can raise returns \<open>error + 'a\<close>, \<open>Inl\<close> being the
  exception raised. Every constructor of \<open>error\<close> stands for a subclass of Python's
  \<open>Exception\<close>.
\<close>

datatype error =
    UnicodeDecodeError
  | ValueError
  | IndexError
  | KeyError
  | AssertionError
  | FileNotFoundError
  | ParserError
  | UnpicklingError
  | AttributeError
  | RuntimeError

section \<open>data\_handler.py: loading and cleaning the corpus\<close>

text \<open>
  A cell of the frame read by \<open>pandas.read_csv\<close>: a missing field (\<open>NaN\<close>), a text field,
  or any other non-null value (a number, a boolean), kept as the text that Python's
  \<open>str()\<close> gives for it, which is all that \<open>astype(str)\<close> looks at.
\<close>

datatype cell = NaN | Str string | Other string

type_synonym row = "(string \<times> cell) list"

record dataframe =
  columns :: "string list"
  rows :: "row list"

definition cell_at :: "row \<Rightarrow> string \<Rightarrow> cell" where
  "cell_at r c = (case map_of r c of None \<Rightarrow> NaN | Some v \<Rightarrow> v)"

definition set_cell :: "string \<Rightarrow> cell \<Rightarrow> row \<Rightarrow> row" where
  "set_cell c v r = map (\<lambda>(k, x). if k = c then (k, v) else (k, x)) r"

definition descricao_do_item :: string where
  "descricao_do_item = ''Descri'' @ [CHR 0xE7, CHR 0xE3] @ ''o do Item''"

definition desc_columns :: "string list" where
  "desc_columns =
     [descricao_do_item, ''Descricao do Item'',
      ''Descri'' @ [CHR 0xE7, CHR 0xE3] @ ''o'', ''Descricao'', ''Description'']"

definition encodings :: "string list" where
  "encodings = [''utf-8'', ''latin-1'', ''cp1252'', ''iso-8859-1'']"

text \<open>\<open>df.rename(columns={old: new})\<close>\<close>

definition rename_column :: "string \<Rightarrow> string \<Rightarrow> dataframe \<Rightarrow> dataframe" where
  "rename_column old new d =
     d\<lparr>columns := map (\<lambda>c. if c = old then new else c) (columns d),
       rows := map (map (\<lambda>(k, v). (if k = old then new else k, v))) (rows d)\<rparr>"

text \<open>\<open>df.dropna(subset=[c])\<close>\<close>

definition dropna :: "string \<Rightarrow> dataframe \<Rightarrow> dataframe" where
  "dropna c d = d\<lparr>rows := filter (\<lambda>r. cell_at r c \<noteq> NaN) (rows d)\<rparr>"

text \<open>\<open>df[c] = df[c].astype(str)\<close>\<close>

fun py_str :: "cell \<Rightarrow> string" where
  "py_str NaN = ''nan''"
| "py_str (Str s) = s"
| "py_str (Other s) = s"

definition astype_str :: "string \<Rightarrow> dataframe \<Rightarrow> dataframe" where
  "astype_str c d = d\<lparr>rows := map (\<lambda>r. set_cell c (Str (py_str (cell_at r c))) r) (rows d)\<rparr>"

text \<open>\<open>df[df[c].str.len() >= 10]\<close>: the length of the text as it stands, nothing is stripped.\<close>

definition str_len :: "cell \<Rightarrow> nat" where
  "str_len v = (case v of Str s \<Rightarrow> length s | _ \<Rightarrow> 0)"

definition keep_long :: "string \<Rightarrow> dataframe \<Rightarrow> dataframe" where
  "keep_long c d = d\<lparr>rows := filter (\<lambda>r. 10 \<le> str_len (cell_at r c)) (rows d)\<rparr>"

text \<open>\<open>DataHandler._clean_data\<close>, on the frame held in \<open>self.df\<close>.\<close>

definition clean_data :: "dataframe \<Rightarrow> error + dataframe" where
  "clean_data d =
     (case find (\<lambda>col. col \<in> set (columns d)) desc_columns of
        None \<Rightarrow> Inl ValueError
      | Some desc_col \<Rightarrow>
          let d1 = (if desc_col \<noteq> descricao_do_item
                    then rename_column desc_col descricao_do_item d else d);
              d2 = dropna descricao_do_item d1;
              d3 = astype_str descricao_do_item d2
          in Inr (keep_long descricao_do_item d3))"

text \<open>
  The loop of \<open>DataHandler.load_data\<close> over the candidate encodings. \<open>rd enc\<close> is
  \<open>pd.read_csv(csv_path, encoding=enc)\<close>; \<open>cur\<close> is \<open>self.df\<close>; \<open>tried\<close> records, in order,
  the encodings \<open>read_csv\<close> was called with.
\<close>

fun read_loop ::
  "(string \<Rightarrow> error + dataframe) \<Rightarrow> string list \<Rightarrow> dataframe option \<Rightarrow> string list
    \<Rightarrow> (error + dataframe option) \<times> string list" where
  "read_loop rd [] cur tried = (Inr cur, tried)"
| "read_loop rd (enc # encs) cur tried =
     (case rd enc of
        Inr d \<Rightarrow> (Inr (Some d), tried @ [enc])
      | Inl e \<Rightarrow>
          if e = UnicodeDecodeError then read_loop rd encs cur (tried @ [enc])
          else (Inl e, tried @ [enc]))"

text \<open>
  \<open>DataHandler.load_data\<close>: the result (the exception or the returned frame), the value of
  \<open>self.df\<close> afterwards, and the encodings tried.
\<close>

definition load_data ::
  "(string \<Rightarrow> string \<Rightarrow> error + dataframe) \<Rightarrow> dataframe option \<Rightarrow> string
    \<Rightarrow> (error + dataframe) \<times> dataframe option \<times> string list" where
  "load_data read_csv self_df csv_path =
     (case read_loop (read_csv csv_path) encodings self_df [] of
        (Inl e, tried) \<Rightarrow> (Inl e, self_df, tried)
      | (Inr None, tried) \<Rightarrow> (Inl ValueError, None, tried)
      | (Inr (Some d), tried) \<Rightarrow>
          (case clean_data d of
             Inl e \<Rightarrow> (Inl e, Some d, tried)
           | Inr d' \<Rightarrow> (Inr d', Some d', tried)))"

text \<open>\<open>DataHandler.get_descriptions\<close>\<close>

definition get_descriptions :: "dataframe option \<Rightarrow> error + string list" where
  "get_descriptions self_df =
     (case self_df of
        None \<Rightarrow> Inl ValueError
      | Some d \<Rightarrow> Inr (map (\<lambda>r. py_str (cell_at r descricao_do_item)) (rows d)))"

section \<open>embeddings\_engine.py: vectors, the persisted artifacts and the index\<close>

text \<open>
  A \<open>float32\<close> array is modelled by exact rationals: rounding is left out, the order of
  the scores and the shape of the results are kept.
\<close>

type_synonym vec = "rat list"
type_synonym matrix = "vec list"

subsection \<open>The FAISS index as the code uses it\<close>

text \<open>
  The index object of the \<open>faiss\<close> library. \<open>faiss.IndexHNSWFlat(d, M)\<close> takes an optional
  third argument, the metric, whose default is \<open>METRIC_L2\<close>; \<open>index.add\<close> appends the
  vectors, which get the ordinals \<open>ntotal, ntotal + 1, ...\<close>; \<open>index.search(x, k)\<close> returns
  for the query exactly \<open>k\<close> distances and \<open>k\<close> labels, best first: ascending squared
  Euclidean distances for \<open>METRIC_L2\<close>, descending inner products for
  \<open>METRIC_INNER_PRODUCT\<close>. Slots for which no vector was found hold the label \<open>-1\<close> and
  the distance \<open>FLT_MAX\<close> (\<open>-FLT_MAX\<close> for inner products). The walk of the HNSW graph is
  idealised as reaching every stored vector.
\<close>

datatype metric = METRIC_INNER_PRODUCT | METRIC_L2

record faiss_index =
  dim :: nat
  hnsw_M :: int
  metric_type :: metric
  xb :: matrix

definition FLT_MAX :: rat where
  "FLT_MAX = 340282346638528859811704183484516925440"

definition fvec_inner_product :: "vec \<Rightarrow> vec \<Rightarrow> rat" where
  "fvec_inner_product x y = sum_list (map2 (\<lambda>a b. a * b) x y)"

definition fvec_L2sqr :: "vec \<Rightarrow> vec \<Rightarrow> rat" where
  "fvec_L2sqr x y = sum_list (map2 (\<lambda>a b. (a - b) * (a - b)) x y)"

definition IndexHNSWFlat :: "nat \<Rightarrow> int \<Rightarrow> metric option \<Rightarrow> faiss_index" where
  "IndexHNSWFlat dm M mt =
     \<lparr>dim = dm, hnsw_M = M,
      metric_type = (case mt of None \<Rightarrow> METRIC_L2 | Some t \<Rightarrow> t),
      xb = []\<rparr>"

definition index_add :: "faiss_index \<Rightarrow> matrix \<Rightarrow> error + faiss_index" where
  "index_add idx x =
     (if \<forall>v \<in> set x. length v = dim idx then Inr (idx\<lparr>xb := xb idx @ x\<rparr>)
      else Inl AssertionError)"

definition ntotal :: "faiss_index \<Rightarrow> nat" where
  "ntotal idx = length (xb idx)"

definition ranked :: "faiss_index \<Rightarrow> vec \<Rightarrow> (rat \<times> int) list" where
  "ranked idx q =
     (case metric_type idx of
        METRIC_L2 \<Rightarrow>
          sort_key fst (zip (map (fvec_L2sqr q) (xb idx)) (map int [0..<ntotal idx]))
      | METRIC_INNER_PRODUCT \<Rightarrow>
          sort_key (\<lambda>p. - fst p)
            (zip (map (fvec_inner_product q) (xb idx)) (map int [0..<ntotal idx])))"

definition no_hit :: "faiss_index \<Rightarrow> rat \<times> int" where
  "no_hit idx =
     (case metric_type idx of
        METRIC_L2 \<Rightarrow> (FLT_MAX, - 1)
      | METRIC_INNER_PRODUCT \<Rightarrow> (- FLT_MAX, - 1))"

definition search_one :: "faiss_index \<Rightarrow> int \<Rightarrow> vec \<Rightarrow> rat list \<times> int list" where
  "search_one idx k q =
     (let found = take (nat k) (ranked idx q);
          slots = found @ replicate (nat k - length found) (no_hit idx)
      in (map fst slots, map snd slots))"

text \<open>\<open>index.search(x, k)\<close> for the query matrix \<open>x\<close>: one row of scores and of labels per query.\<close>

definition index_search ::
  "faiss_index \<Rightarrow> matrix \<Rightarrow> int \<Rightarrow> error + rat list list \<times> int list list" where
  "index_search idx x k =
     (if k \<le> 0 \<or> (\<exists>q \<in> set x. length q \<noteq> dim idx) then Inl AssertionError
      else Inr (map (\<lambda>q. fst (search_one idx k q)) x, map (\<lambda>q. snd (search_one idx k q)) x))"

subsection \<open>Files\<close>

text \<open>
  What a path of the file system holds: a complete \<open>.npy\<close> array, a complete pickle of an
  index, or \<open>Torn n\<close>, the \<open>n\<close> bytes that a writer had put into the file when it was
  interrupted. \<open>events\<close> is a log kept by the model only: every call of the encoder with
  its batch, every index built, every file loaded or saved.
\<close>

datatype file_content = NpyFile matrix | PickleFile faiss_index | Torn nat

datatype event =
    Encode "string list"
  | BuildIndex nat
  | LoadFile string
  | SaveFile string

record world =
  files :: "string \<rightharpoonup> file_content"
  events :: "event list"

definition path_exists :: "world \<Rightarrow> string \<Rightarrow> bool" where
  "path_exists w p = (files w p \<noteq> None)"

definition log_event :: "event \<Rightarrow> world \<Rightarrow> world" where
  "log_event e w = w\<lparr>events := events w @ [e]\<rparr>"

text \<open>
  Both writers open the target itself for writing, which empties it, and then write the
  bytes into it. \<open>kill = Some n\<close>: the process is killed when \<open>n\<close> bytes have been written;
  \<open>kill = None\<close>: the write completes. The result says whether the write completed.
\<close>

definition write_in_place :: "nat option \<Rightarrow> string \<Rightarrow> file_content \<Rightarrow> world \<Rightarrow> bool \<times> world" where
  "write_in_place kill p f w =
     (case kill of
        None \<Rightarrow> (True, log_event (SaveFile p) (w\<lparr>files := (files w)(p \<mapsto> f)\<rparr>))
      | Some n \<Rightarrow> (False, w\<lparr>files := (files w)(p \<mapsto> Torn n)\<rparr>))"

text \<open>\<open>numpy.save(file, arr)\<close> with a file name: \<open>.npy\<close> is appended to a name that lacks it.\<close>

definition npy_name :: "string \<Rightarrow> string" where
  "npy_name p = (if suffix ''.npy'' p then p else p @ ''.npy'')"

definition np_save :: "nat option \<Rightarrow> string \<Rightarrow> matrix \<Rightarrow> world \<Rightarrow> bool \<times> world" where
  "np_save kill p m w = write_in_place kill (npy_name p) (NpyFile m) w"

definition np_load :: "string \<Rightarrow> world \<Rightarrow> error + matrix" where
  "np_load p w =
     (case files w p of
        None \<Rightarrow> Inl FileNotFoundError
      | Some (NpyFile m) \<Rightarrow> Inr m
      | Some _ \<Rightarrow> Inl ValueError)"

text \<open>\<open>with open(p, 'wb') as f: pickle.dump(idx, f)\<close> and \<open>pickle.load\<close>\<close>

definition pickle_dump :: "nat option \<Rightarrow> string \<Rightarrow> faiss_index \<Rightarrow> world \<Rightarrow> bool \<times> world" where
  "pickle_dump kill p idx w = write_in_place kill p (PickleFile idx) w"

definition pickle_load :: "string \<Rightarrow> world \<Rightarrow> error + faiss_index" where
  "pickle_load p w =
     (case files w p of
        None \<Rightarrow> Inl FileNotFoundError
      | Some (PickleFile idx) \<Rightarrow> Inr idx
      | Some _ \<Rightarrow> Inl UnpicklingError)"

subsection \<open>EmbeddingsEngine\<close>

text \<open>
  The fields of \<open>EmbeddingsEngine\<close>. \<open>model\<close> is the loaded sentence encoder: the vector it
  gives for one text (\<open>model.encode\<close> on a list of texts gives the vectors of the texts, in
  the order of the list).
\<close>

record engine =
  model_name :: string
  embeddings_path :: string
  index_path :: string
  hnsw_m :: int
  hnsw_ef_construction :: int
  hnsw_ef_search :: int
  n_workers :: int
  batch_size :: int
  model :: "(string \<Rightarrow> vec) option"
  embeddings :: "matrix option"
  index :: "faiss_index option"

text \<open>\<open>EmbeddingsEngine.load_model\<close>; \<open>SentenceTransformer\<close> gives the encoder of a model name.\<close>

definition load_model :: "(string \<Rightarrow> string \<Rightarrow> vec) \<Rightarrow> engine \<Rightarrow> engine" where
  "load_model SentenceTransformer self = self\<lparr>model := Some (SentenceTransformer (model_name self))\<rparr>"

text \<open>\<open>EmbeddingsEngine._generate_embeddings_batch\<close>\<close>

definition generate_embeddings_batch :: "engine \<Rightarrow> string list \<Rightarrow> error + matrix" where
  "generate_embeddings_batch self texts_batch =
     (case model self of
        None \<Rightarrow> Inl AttributeError
      | Some encode \<Rightarrow> Inr (map encode texts_batch))"

text \<open>\<open>range(0, n, step)\<close>\<close>

definition py_range :: "nat \<Rightarrow> int \<Rightarrow> error + nat list" where
  "py_range n step =
     (if step = 0 then Inl ValueError
      else if step < 0 then Inr []
      else Inr (map (\<lambda>j. j * nat step) [0..<(n + nat step - 1) div nat step]))"

text \<open>
  The worker pool. \<open>executor.submit\<close> makes one future per batch, numbered in the order of
  submission. The workers finish the batches in some order \<open>sched\<close>; finishing batch \<open>i\<close>
  stores its outcome in future \<open>i\<close>.
\<close>

definition run_pool ::
  "engine \<Rightarrow> string list list \<Rightarrow> nat list \<Rightarrow> (nat \<rightharpoonup> error + matrix) \<times> event list" where
  "run_pool self batches sched =
     fold (\<lambda>i (fut, evs).
             if i < length batches
             then (fut(i \<mapsto> generate_embeddings_batch self (batches ! i)),
                   evs @ [Encode (batches ! i)])
             else (fut, evs))
          sched (Map.empty, [])"

text \<open>
  The collecting loop \<open>for i, future in enumerate(futures): future.result()\<close>: the futures are
  read in the order of submission; \<open>result()\<close> re-raises the exception of the batch, and
  never returns for a future that is never finished (\<open>None\<close>).
\<close>

fun collect ::
  "(nat \<rightharpoonup> error + matrix) \<Rightarrow> nat list \<Rightarrow> matrix list \<Rightarrow> (error + matrix list) option" where
  "collect fut [] embeddings_list = Some (Inr embeddings_list)"
| "collect fut (i # rest) embeddings_list =
     (case fut i of
        None \<Rightarrow> None
      | Some (Inl e) \<Rightarrow> Some (Inl e)
      | Some (Inr batch_embeddings) \<Rightarrow> collect fut rest (embeddings_list @ [batch_embeddings]))"

text \<open>\<open>np.vstack\<close>: an empty list of arrays is a \<open>ValueError\<close>.\<close>

definition np_vstack :: "matrix list \<Rightarrow> error + matrix" where
  "np_vstack ms = (if ms = [] then Inl ValueError else Inr (concat ms))"

text \<open>
  \<open>EmbeddingsEngine.generate_embeddings\<close>. The result is \<open>None\<close> when the call does not
  return (the process was killed while saving, or a future never finished), else the
  exception raised or \<open>Inr ()\<close>; with it come the engine and the world afterwards.
\<close>

definition generate_embeddings ::
  "nat list \<Rightarrow> nat option \<Rightarrow> string list \<Rightarrow> bool \<Rightarrow> engine \<Rightarrow> world
    \<Rightarrow> (error + unit) option \<times> engine \<times> world" where
  "generate_embeddings sched kill descriptions force_rebuild self w =
     (if \<not> force_rebuild \<and> path_exists w (embeddings_path self) then
        (case np_load (embeddings_path self) w of
           Inl e \<Rightarrow> (Some (Inl e), self, w)
         | Inr m \<Rightarrow>
             (Some (Inr ()), self\<lparr>embeddings := Some m\<rparr>,
              log_event (LoadFile (embeddings_path self)) w))
      else
        (let texts = map (\<lambda>desc. ''passage: '' @ desc) descriptions in
         (case py_range (length texts) (batch_size self) of
            Inl e \<Rightarrow> (Some (Inl e), self, w)
          | Inr starts \<Rightarrow>
              (let batches = map (\<lambda>i. take (nat (batch_size self)) (drop i texts)) starts in
               if n_workers self \<le> 0 then (Some (Inl ValueError), self, w)
               else
                 (let (fut, evs) = run_pool self batches sched;
                      w1 = w\<lparr>events := events w @ evs\<rparr>
                  in (case collect fut [0..<length batches] [] of
                        None \<Rightarrow> (None, self, w1)
                      | Some (Inl e) \<Rightarrow> (Some (Inl e), self, w1)
                      | Some (Inr embeddings_list) \<Rightarrow>
                          (case np_vstack embeddings_list of
                             Inl e \<Rightarrow> (Some (Inl e), self, w1)
                           | Inr m \<Rightarrow>
                               (let self1 = self\<lparr>embeddings := Some m\<rparr> in
                                (case np_save kill (embeddings_path self) m w1 of
                                   (False, w2) \<Rightarrow> (None, self1, w2)
                                 | (True, w2) \<Rightarrow> (Some (Inr ()), self1, w2))))))))))"

text \<open>\<open>self.embeddings.shape[1]\<close>\<close>

definition shape1 :: "matrix \<Rightarrow> nat" where
  "shape1 m = (case m of [] \<Rightarrow> 0 | v # _ \<Rightarrow> length v)"

text \<open>\<open>EmbeddingsEngine.create_hnsw_index\<close>, with the same shape of result.\<close>

definition create_hnsw_index ::
  "nat option \<Rightarrow> bool \<Rightarrow> engine \<Rightarrow> world \<Rightarrow> (error + unit) option \<times> engine \<times> world" where
  "create_hnsw_index kill force_rebuild self w =
     (if \<not> force_rebuild \<and> path_exists w (index_path self) then
        (case pickle_load (index_path self) w of
           Inl e \<Rightarrow> (Some (Inl e), self, w)
         | Inr idx \<Rightarrow>
             (Some (Inr ()), self\<lparr>index := Some idx\<rparr>,
              log_event (LoadFile (index_path self)) w))
      else
        (case embeddings self of
           None \<Rightarrow> (Some (Inl ValueError), self, w)
         | Some m \<Rightarrow>
             (let idx0 = IndexHNSWFlat (shape1 m) (hnsw_m self) None in
              (case index_add idx0 m of
                 Inl e \<Rightarrow> (Some (Inl e), self\<lparr>index := Some idx0\<rparr>, w)
               | Inr idx \<Rightarrow>
                   (let self1 = self\<lparr>index := Some idx\<rparr>;
                        w1 = log_event (BuildIndex (ntotal idx)) w
                    in (case pickle_dump kill (index_path self) idx w1 of
                          (False, w2) \<Rightarrow> (None, self1, w2)
                        | (True, w2) \<Rightarrow> (Some (Inr ()), self1, w2)))))))"

text \<open>\<open>EmbeddingsEngine.generate_query_embedding\<close>: an array of one row.\<close>

definition generate_query_embedding :: "engine \<Rightarrow> string \<Rightarrow> error + matrix" where
  "generate_query_embedding self query =
     (case model self of
        None \<Rightarrow> Inl ValueError
      | Some encode \<Rightarrow> Inr [encode (''query: '' @ query)])"

text \<open>\<open>EmbeddingsEngine.search\<close>\<close>

definition engine_search ::
  "engine \<Rightarrow> matrix \<Rightarrow> int \<Rightarrow> error + rat list list \<times> int list list" where
  "engine_search self query_embedding top_k =
     (case index self of
        None \<Rightarrow> Inl ValueError
      | Some idx \<Rightarrow> index_search idx query_embedding top_k)"

section \<open>search\_engine.py: the search and the assembly of its results\<close>

text \<open>
  \<open>df.iloc[indices]\<close> with a list of positions: a position from \<open>-len\<close> to \<open>-1\<close> counts from
  the end, a position outside \<open>-len .. len - 1\<close> is an \<open>IndexError\<close>.
\<close>

definition iloc :: "'a list \<Rightarrow> int list \<Rightarrow> error + 'a list" where
  "iloc xs indices =
     (let n = int (length xs) in
      if \<exists>i \<in> set indices. n \<le> i \<or> i < - n then Inl IndexError
      else Inr (map (\<lambda>i. xs ! nat (if i < 0 then i + n else i)) indices))"

text \<open>
  A row of the frame that \<open>SearchEngine.search\<close> returns: the copied catalogue row with the
  three columns the search adds.
\<close>

record hit =
  score :: rat
  source :: row
  timestamp_busca :: string
  query_original :: string

record results =
  result_columns :: "string list"
  hits :: "hit list"

definition codigo_do_item :: string where
  "codigo_do_item = ''C'' @ [CHR 0xF3] @ ''digo do Item''"

definition important_columns :: "string list" where
  "important_columns =
     [''Score_Similaridade'', codigo_do_item, descricao_do_item, ''Nome da Classe'',
      ''Nome do Grupo'', ''C'' @ [CHR 0xF3] @ ''digo NCM'', ''Query_Original'',
      ''Timestamp_Busca'']"

text \<open>\<open>frame[c] = ...\<close>: a new column goes last, an existing one keeps its place.\<close>

definition add_column :: "string \<Rightarrow> string list \<Rightarrow> string list" where
  "add_column c cols = (if c \<in> set cols then cols else cols @ [c])"

definition final_columns :: "string list \<Rightarrow> string list" where
  "final_columns cols =
     (let existing_columns = filter (\<lambda>col. col \<in> set cols) important_columns;
          other_columns = filter (\<lambda>col. col \<notin> set existing_columns) cols
      in existing_columns @ other_columns)"

text \<open>
  The second half of \<open>SearchEngine.search\<close> (\<open># Prepara resultados\<close>): the rows of the
  catalogue at the ordinals \<open>indices[0]\<close>, each with its score of \<open>scores[0]\<close>, the time
  stamp and the query. \<open>now\<close> is the text of \<open>datetime.now().isoformat()\<close>.
\<close>

definition assemble ::
  "string \<Rightarrow> string \<Rightarrow> dataframe \<Rightarrow> rat list \<Rightarrow> int list \<Rightarrow> error + results" where
  "assemble now query df scores0 indices0 =
     (case iloc (rows df) indices0 of
        Inl e \<Rightarrow> Inl e
      | Inr recs \<Rightarrow>
          Inr \<lparr>result_columns =
                 final_columns
                   (add_column ''Query_Original''
                     (add_column ''Timestamp_Busca''
                       (add_column ''Score_Similaridade'' (columns df)))),
               hits =
                 map (\<lambda>(r, s). \<lparr>score = s, source = r, timestamp_busca = now,
                                 query_original = query\<rparr>)
                     (zip recs scores0)\<rparr>)"

text \<open>
  \<open>SearchEngine.search\<close>: the embedding of the query, the search of the index, and the
  assembly of row 0 of its scores and ordinals.
\<close>

definition search :: "string \<Rightarrow> engine \<Rightarrow> string \<Rightarrow> dataframe \<Rightarrow> int \<Rightarrow> error + results" where
  "search now self query df top_k =
     (case generate_query_embedding self query of
        Inl e \<Rightarrow> Inl e
      | Inr query_embedding \<Rightarrow>
          (case engine_search self query_embedding top_k of
             Inl e \<Rightarrow> Inl e
           | Inr (scores, indices) \<Rightarrow>
               (case (scores, indices) of
                  (scores0 # _, indices0 # _) \<Rightarrow> assemble now query df scores0 indices0
                | _ \<Rightarrow> Inl IndexError)))"

section \<open>batch\_processor.py: one search per item of a list\<close>

text \<open>\<open>str.strip()\<close>: the white space of Python among the code points below 256.\<close>

definition is_space :: "char \<Rightarrow> bool" where
  "is_space c = (of_char c \<in> {9, 10, 11, 12, 13, 28, 29, 30, 31, 32, 133, 160 :: nat})"

definition strip :: "string \<Rightarrow> string" where
  "strip s = rev (dropWhile is_space (rev (dropWhile is_space s)))"

text \<open>
  A row of a frame of the batch: the eight columns the batch orders first, and for a row
  of a successful search the hit it comes from, which holds the other columns (they are
  missing in the row of a failed item).
\<close>

record batch_row =
  Numero_Item :: nat
  Item_Original :: string
  Status :: string
  Ranking_Item :: nat
  Score_Similaridade :: rat
  Codigo_do_Item :: cell
  Descricao_do_Item :: cell
  Recomendacao_IA :: string
  from_hit :: "hit option"

record batch_frame =
  batch_columns :: "string list"
  batch_rows :: "batch_row list"

definition column_order :: "string list" where
  "column_order =
     [''Numero_Item'', ''Item_Original'', ''Status'', ''Ranking_Item'',
      ''Score_Similaridade'', codigo_do_item, descricao_do_item, ''Recomendacao_IA'']"

text \<open>The frame \<open>error_df\<close> built in the \<open>except\<close> branch; \<open>msg\<close> is \<open>str(e)\<close>.\<close>

definition error_df :: "nat \<Rightarrow> string \<Rightarrow> string \<Rightarrow> batch_frame" where
  "error_df i item msg =
     \<lparr>batch_columns =
        [''Item_Original'', ''Numero_Item'', ''Status'', ''Recomendacao_IA'',
         ''Score_Similaridade'', codigo_do_item, descricao_do_item, ''Ranking_Item''],
      batch_rows =
        [\<lparr>Numero_Item = i + 1, Item_Original = strip item, Status = ''Erro'',
          Ranking_Item = 1, Score_Similaridade = 0, Codigo_do_Item = Str ''N/A'',
          Descricao_do_Item = Str (''Erro ao processar: '' @ msg),
          Recomendacao_IA = ''Erro: '' @ msg, from_hit = None\<rparr>]\<rparr>"

text \<open>The frame \<open>item_results\<close> built in the \<open>try\<close> branch from the results of the search.\<close>

definition item_results :: "nat \<Rightarrow> string \<Rightarrow> string \<Rightarrow> results \<Rightarrow> batch_frame" where
  "item_results i item recommendation res =
     \<lparr>batch_columns =
        add_column ''Ranking_Item'' (add_column ''Status'' (add_column ''Recomendacao_IA''
          (add_column ''Numero_Item'' (add_column ''Item_Original'' (result_columns res))))),
      batch_rows =
        map (\<lambda>(rank, h).
               \<lparr>Numero_Item = i + 1, Item_Original = strip item, Status = ''Sucesso'',
                Ranking_Item = rank, Score_Similaridade = score h,
                Codigo_do_Item = cell_at (source h) codigo_do_item,
                Descricao_do_Item = cell_at (source h) descricao_do_item,
                Recomendacao_IA = recommendation, from_hit = Some h\<rparr>)
            (zip [1..<length (hits res) + 1] (hits res))\<rparr>"

text \<open>
  The body of the loop of \<open>BatchProcessor.process_batch\<close> for item number \<open>i\<close> (from 0).
  \<open>search_fn\<close> is \<open>self.search_engine.search\<close>, \<open>recommend\<close> is
  \<open>self.ai_recommender.generate_recommendation\<close> and \<open>str_of\<close> is \<open>str\<close> on an exception.
  No progress callback is given.
\<close>

definition process_item ::
  "(string \<Rightarrow> dataframe \<Rightarrow> int \<Rightarrow> error + results) \<Rightarrow> (string \<Rightarrow> results \<Rightarrow> error + string)
    \<Rightarrow> (error \<Rightarrow> string) \<Rightarrow> dataframe \<Rightarrow> int \<Rightarrow> bool \<Rightarrow> nat \<Rightarrow> string \<Rightarrow> batch_frame" where
  "process_item search_fn recommend str_of df top_k use_ai i item =
     (case search_fn (strip item) df top_k of
        Inl e \<Rightarrow> error_df i item (str_of e)
      | Inr res \<Rightarrow>
          (if use_ai then
             (case recommend (strip item) res of
                Inl e \<Rightarrow> error_df i item (str_of e)
              | Inr recommendation \<Rightarrow> item_results i item recommendation res)
           else item_results i item ''IA desabilitada'' res))"

fun batch_loop ::
  "(string \<Rightarrow> dataframe \<Rightarrow> int \<Rightarrow> error + results) \<Rightarrow> (string \<Rightarrow> results \<Rightarrow> error + string)
    \<Rightarrow> (error \<Rightarrow> string) \<Rightarrow> dataframe \<Rightarrow> int \<Rightarrow> bool \<Rightarrow> nat \<Rightarrow> string list
    \<Rightarrow> batch_frame list" where
  "batch_loop search_fn recommend str_of df top_k use_ai i [] = []"
| "batch_loop search_fn recommend str_of df top_k use_ai i (item # item_list) =
     process_item search_fn recommend str_of df top_k use_ai i item
       # batch_loop search_fn recommend str_of df top_k use_ai (Suc i) item_list"

text \<open>\<open>pd.concat(batch_results, ignore_index=True)\<close>: the rows in order, the union of the columns.\<close>

definition pd_concat :: "batch_frame list \<Rightarrow> batch_frame" where
  "pd_concat frames =
     \<lparr>batch_columns = fold (\<lambda>f cols. fold add_column (batch_columns f) cols) frames [],
      batch_rows = concat (map batch_rows frames)\<rparr>"

text \<open>
  \<open>BatchProcessor.process_batch\<close>. Selecting \<open>final_df[column_order]\<close> is a \<open>KeyError\<close> when
  one of the eight columns is in no frame of the batch.
\<close>

definition process_batch ::
  "(string \<Rightarrow> dataframe \<Rightarrow> int \<Rightarrow> error + results) \<Rightarrow> (string \<Rightarrow> results \<Rightarrow> error + string)
    \<Rightarrow> (error \<Rightarrow> string) \<Rightarrow> string list \<Rightarrow> dataframe \<Rightarrow> int \<Rightarrow> bool \<Rightarrow> error + batch_frame" where
  "process_batch search_fn recommend str_of item_list df top_k use_ai =
     (let batch_results = batch_loop search_fn recommend str_of df top_k use_ai 0 item_list in
      if batch_results = [] then Inr \<lparr>batch_columns = [], batch_rows = []\<rparr>
      else
        (let final_df = pd_concat batch_results;
             other_columns = filter (\<lambda>col. col \<notin> set column_order) (batch_columns final_df)
         in if \<forall>col \<in> set column_order. col \<in> set (batch_columns final_df)
            then Inr (final_df\<lparr>batch_columns := column_order @ other_columns\<rparr>)
            else Inl KeyError))"

section \<open>Well-formed frames and the concrete inputs used below\<close>

text \<open>Every row of a frame has one cell per column, in the order of the columns.\<close>

definition wf_frame :: "dataframe \<Rightarrow> bool" where
  "wf_frame d = (\<forall>r \<in> set (rows d). map fst r = columns d)"

definition short_frame :: dataframe where
  "short_frame = \<lparr>columns = [descricao_do_item], rows = [[(descricao_do_item, Str ''cabo'')]]\<rparr>"

definition short_csv :: "string \<Rightarrow> string \<Rightarrow> error + dataframe" where
  "short_csv p enc = Inr short_frame"

definition padded_frame :: dataframe where
  "padded_frame =
     \<lparr>columns = [descricao_do_item], rows = [[(descricao_do_item, Str ''cabo      '')]]\<rparr>"

definition mixed_frame :: dataframe where
  "mixed_frame =
     \<lparr>columns = [''Codigo'', ''Descricao''],
      rows = [[(''Codigo'', Other ''101''), (''Descricao'', NaN)],
              [(''Codigo'', Other ''102''), (''Descricao'', Str ''cabo'')],
              [(''Codigo'', Other ''103''), (''Descricao'', Str ''parafuso sextavado'')]]\<rparr>"

definition blank_frame :: dataframe where
  "blank_frame =
     \<lparr>columns = [''Description''],
      rows = [[(''Description'', NaN)], [(''Description'', Str ''tinta'')]]\<rparr>"

definition blank_csv :: "string \<Rightarrow> string \<Rightarrow> error + dataframe" where
  "blank_csv p enc = (if enc = ''utf-8'' then Inl UnicodeDecodeError else Inr blank_frame)"

definition broken_csv :: "string \<Rightarrow> string \<Rightarrow> error + dataframe" where
  "broken_csv p enc = (if enc = ''utf-8'' then Inl UnicodeDecodeError else Inl ParserError)"

definition toy_encode :: "string \<Rightarrow> vec" where
  "toy_encode s = [of_nat (length s), 1]"

definition toy_engine :: engine where
  "toy_engine =
     \<lparr>model_name = ''intfloat/e5-base-v2'', embeddings_path = ''catmat_embeddings.npy'',
      index_path = ''catmat_hnsw_index.pkl'', hnsw_m = 32, hnsw_ef_construction = 200,
      hnsw_ef_search = 100, n_workers = 2, batch_size = 2, model = Some toy_encode,
      embeddings = None, index = None\<rparr>"

definition toy_descriptions :: "string list" where
  "toy_descriptions = [''parafuso sextavado'', ''cabo flexivel'', ''tinta acrilica branca'']"

definition empty_world :: world where
  "empty_world = \<lparr>files = Map.empty, events = []\<rparr>"

definition unit_vectors :: matrix where
  "unit_vectors = [[1, 0], [3 / 5, 4 / 5], [0, 1]]"

definition unit_encode :: "string \<Rightarrow> vec" where
  "unit_encode s = (if s = ''query: parafuso'' then [1, 0] else [0, 1])"

definition unit_engine :: engine where
  "unit_engine =
     \<lparr>model_name = ''intfloat/e5-base-v2'', embeddings_path = ''catmat_embeddings.npy'',
      index_path = ''catmat_hnsw_index.pkl'', hnsw_m = 32, hnsw_ef_construction = 200,
      hnsw_ef_search = 100, n_workers = 2, batch_size = 2, model = Some unit_encode,
      embeddings = Some unit_vectors, index = None\<rparr>"

definition built_engine :: engine where
  "built_engine = fst (snd (create_hnsw_index None True unit_engine empty_world))"

definition unit_index :: faiss_index where
  "unit_index = \<lparr>dim = 2, hnsw_M = 32, metric_type = METRIC_L2, xb = unit_vectors\<rparr>"

definition cached_world :: world where
  "cached_world =
     \<lparr>files = [''catmat_embeddings.npy'' \<mapsto> NpyFile [[1, 0]],
               ''catmat_hnsw_index.pkl'' \<mapsto> PickleFile unit_index],
      events = []\<rparr>"

definition suffixless_engine :: engine where
  "suffixless_engine = toy_engine\<lparr>embeddings_path := ''catmat_embeddings''\<rparr>"

definition first_build :: "(error + unit) option \<times> engine \<times> world" where
  "first_build =
     generate_embeddings [0] None [''parafuso sextavado''] False suffixless_engine empty_world"

definition second_build :: "(error + unit) option \<times> engine \<times> world" where
  "second_build =
     generate_embeddings [0] None [''parafuso sextavado''] False
       (fst (snd first_build)) (snd (snd first_build))"

definition corpus3 :: dataframe where
  "corpus3 =
     \<lparr>columns = [descricao_do_item],
      rows = [[(descricao_do_item, Str ''parafuso sextavado'')],
              [(descricao_do_item, Str ''cabo flexivel'')],
              [(descricao_do_item, Str ''tinta acrilica branca'')]]\<rparr>"

definition failing_search :: "string \<Rightarrow> dataframe \<Rightarrow> int \<Rightarrow> error + results" where
  "failing_search q df top_k =
     (if q = ''cabo'' then Inl RuntimeError
      else assemble ''2025-01-01T00:00:00'' q df [1 / 2] [0])"

definition no_recommend :: "string \<Rightarrow> results \<Rightarrow> error + string" where
  "no_recommend q res = Inr ''sem IA''"

definition error_text :: "error \<Rightarrow> string" where
  "error_text e = ''falha''"

definition five_items :: "string list" where
  "five_items = [''parafuso'', ''tinta'', '' cabo '', ''luva'', ''papel'']"

section \<open>The corpus loader\<close>

lemma read_loop_tried:
  "read_loop rd es cur acc = (r, tried) \<Longrightarrow>
   \<exists>ts. tried = acc @ ts \<and> prefix ts es \<and> (\<forall>x \<in> set (butlast ts). rd x = Inl UnicodeDecodeError)"
proof (induction es arbitrary: acc)
  case Nil
  then show ?case by simp
next
  case (Cons enc encs)
  show ?case
  proof (cases "rd enc")
    case (Inr d)
    with Cons.prems have "tried = acc @ [enc]" by simp
    then show ?thesis by (intro exI[of _ "[enc]"]) simp
  next
    case (Inl e)
    show ?thesis
    proof (cases "e = UnicodeDecodeError")
      case False
      with Inl Cons.prems have "tried = acc @ [enc]" by simp
      then show ?thesis by (intro exI[of _ "[enc]"]) simp
    next
      case True
      with Inl Cons.prems have "read_loop rd encs cur (acc @ [enc]) = (r, tried)" by simp
      from Cons.IH[OF this] obtain ts where
        ts: "tried = (acc @ [enc]) @ ts" "prefix ts encs"
            "\<forall>x \<in> set (butlast ts). rd x = Inl UnicodeDecodeError" by blast
      show ?thesis
        using ts Inl True by (intro exI[of _ "enc # ts"]) auto
    qed
  qed
qed

lemma read_loop_raise:
  "(\<forall>x \<in> set pre. rd x = Inl UnicodeDecodeError) \<Longrightarrow> rd enc = Inl e \<Longrightarrow> e \<noteq> UnicodeDecodeError \<Longrightarrow>
   read_loop rd (pre @ enc # post) cur acc = (Inl e, acc @ pre @ [enc])"
  by (induction pre arbitrary: acc) simp_all

lemma load_data_tried:
  "snd (snd (load_data read_csv s p)) = snd (read_loop (read_csv p) encodings s [])"
  by (simp add: load_data_def split: prod.splits sum.splits option.splits)

text \<open>
  Claim C10. The encodings that \<open>load_data\<close> tries are a prefix of the ordered list
  \<open>utf-8, latin-1, cp1252, iso-8859-1\<close>, and every one but the last tried made
  \<open>read_csv\<close> raise \<open>UnicodeDecodeError\<close>: nothing else moves the loader on to the next
  candidate. When the candidates before some encoding all raise \<open>UnicodeDecodeError\<close> and
  that encoding raises any other exception, \<open>load_data\<close> raises this exception, leaves
  \<open>self.df\<close> as it was and has tried no later encoding.
\<close>

theorem load_data_fallthrough_only_on_decode_error:
  "prefix (snd (snd (load_data read_csv s p))) encodings
   \<and> (\<forall>enc \<in> set (butlast (snd (snd (load_data read_csv s p)))).
         read_csv p enc = Inl UnicodeDecodeError)
   \<and> (\<forall>pre enc post e.
         encodings = pre @ enc # post \<and> (\<forall>x \<in> set pre. read_csv p x = Inl UnicodeDecodeError)
         \<and> read_csv p enc = Inl e \<and> e \<noteq> UnicodeDecodeError
         \<longrightarrow> load_data read_csv s p = (Inl e, s, pre @ [enc]))"
proof -
  obtain r tried where rt: "read_loop (read_csv p) encodings s [] = (r, tried)"
    by (cases "read_loop (read_csv p) encodings s []")
  from read_loop_tried[OF rt] have
    "prefix tried encodings" "\<forall>x \<in> set (butlast tried). read_csv p x = Inl UnicodeDecodeError"
    by auto
  moreover have "snd (snd (load_data read_csv s p)) = tried"
    by (simp add: load_data_tried rt)
  moreover have "load_data read_csv s p = (Inl e, s, pre @ [enc])"
    if "encodings = pre @ enc # post" "\<forall>x \<in> set pre. read_csv p x = Inl UnicodeDecodeError"
       "read_csv p enc = Inl e" "e \<noteq> UnicodeDecodeError" for pre enc post e
    using read_loop_raise[OF that(2,3,4), of post s "[]"] that(1)
    by (simp add: load_data_def)
  ultimately show ?thesis by blast
qed

lemma find_desc_not_canonical:
  "find (\<lambda>col. col \<in> set cols) desc_columns = Some c \<Longrightarrow> c \<noteq> descricao_do_item
   \<Longrightarrow> descricao_do_item \<notin> set cols"
  by (auto simp: desc_columns_def split: if_splits)

lemma cell_at_renamed:
  "t \<notin> fst ` set r \<Longrightarrow> cell_at (map (\<lambda>(k, v). (if k = c then t else k, v)) r) t = cell_at r c"
  by (induction r) (auto simp: cell_at_def)

lemma cell_at_absent: "c \<notin> fst ` set r \<Longrightarrow> cell_at r c = NaN"
  by (induction r) (auto simp: cell_at_def)

lemma cell_at_set_cell:
  "c \<in> fst ` set r \<Longrightarrow> cell_at (set_cell c v r) c = v"
  by (induction r) (auto simp: cell_at_def set_cell_def)

lemma cleaned_descriptions:
  "map (\<lambda>r. cell_at r t)
     (filter (\<lambda>r. 10 \<le> str_len (cell_at r t))
        (map (\<lambda>r. set_cell t (Str (py_str (cell_at r t))) r)
           (filter (\<lambda>r. cell_at r t \<noteq> NaN) rs)))
   = map Str (filter (\<lambda>s. 10 \<le> length s)
        (map py_str (filter (\<lambda>v. v \<noteq> NaN) (map (\<lambda>r. cell_at r t) rs))))"
proof (induction rs)
  case Nil
  then show ?case by simp
next
  case (Cons r rs)
  show ?case
  proof (cases "cell_at r t = NaN")
    case True
    with Cons show ?thesis by simp
  next
    case False
    then have "t \<in> fst ` set r" using cell_at_absent by blast
    then have "cell_at (set_cell t (Str (py_str (cell_at r t))) r) t = Str (py_str (cell_at r t))"
      by (rule cell_at_set_cell)
    with False Cons show ?thesis by (simp add: str_len_def)
  qed
qed

lemma clean_data_rows:
  assumes "find (\<lambda>col. col \<in> set (columns d)) desc_columns = Some c" and "wf_frame d"
  shows "\<exists>d'. clean_data d = Inr d' \<and>
           map (\<lambda>r. cell_at r descricao_do_item) (rows d')
           = map Str (filter (\<lambda>s. 10 \<le> length s)
               (map py_str (filter (\<lambda>v. v \<noteq> NaN) (map (\<lambda>r. cell_at r c) (rows d)))))"
proof (cases "c = descricao_do_item")
  case True
  with assms(1) show ?thesis
    by (simp add: clean_data_def keep_long_def astype_str_def dropna_def cleaned_descriptions)
next
  case False
  from find_desc_not_canonical[OF assms(1) False] assms(2)
  have "\<forall>r \<in> set (rows d). descricao_do_item \<notin> fst ` set r"
    by (auto simp: wf_frame_def) (metis (no_types) image_eqI list.set_map fst_conv)
  then have A: "map (\<lambda>r. cell_at r descricao_do_item)
               (map (map (\<lambda>(k, v). (if k = c then descricao_do_item else k, v))) (rows d))
             = map (\<lambda>r. cell_at r c) (rows d)"
    by (simp add: cell_at_renamed)
  from assms(1) False show ?thesis
    by (simp add: clean_data_def keep_long_def astype_str_def dropna_def rename_column_def
        cleaned_descriptions A del: map_map)
qed


lemma read_loop_ok:
  "(\<forall>x \<in> set pre. rd x = Inl UnicodeDecodeError) \<Longrightarrow> rd enc = Inr d \<Longrightarrow>
   read_loop rd (pre @ enc # post) cur acc = (Inr (Some d), acc @ pre @ [enc])"
  by (induction pre arbitrary: acc) simp_all

text \<open>
  Claim C7, as the code has it. On a well-formed frame with a description column,
  cleaning succeeds; every surviving row has a text description of at least 10 characters,
  counted on the text as it stands (nothing is trimmed or normalised); and the surviving
  descriptions are, in order, the non-null descriptions of the input whose text has at
  least 10 characters, so a null description and one of fewer than 10 characters are
  dropped.
\<close>

theorem clean_data_keeps_raw_length:
  assumes "find (\<lambda>col. col \<in> set (columns d)) desc_columns = Some c" and "wf_frame d"
  shows "\<exists>d'. clean_data d = Inr d'
           \<and> (\<forall>r \<in> set (rows d'). \<exists>s. cell_at r descricao_do_item = Str s \<and> 10 \<le> length s)
           \<and> map (\<lambda>r. cell_at r descricao_do_item) (rows d')
             = map Str (filter (\<lambda>s. 10 \<le> length s)
                 (map py_str (filter (\<lambda>v. v \<noteq> NaN) (map (\<lambda>r. cell_at r c) (rows d)))))"
proof -
  from clean_data_rows[OF assms] obtain d' where
    d': "clean_data d = Inr d'"
    "map (\<lambda>r. cell_at r descricao_do_item) (rows d')
       = map Str (filter (\<lambda>s. 10 \<le> length s)
           (map py_str (filter (\<lambda>v. v \<noteq> NaN) (map (\<lambda>r. cell_at r c) (rows d)))))"
    by blast
  have "\<exists>s. cell_at r descricao_do_item = Str s \<and> 10 \<le> length s" if "r \<in> set (rows d')" for r
  proof -
    from that have "cell_at r descricao_do_item \<in> set (map (\<lambda>r. cell_at r descricao_do_item) (rows d'))"
      by simp
    then show ?thesis unfolding d'(2) by auto
  qed
  with d' show ?thesis by blast
qed

text \<open>
  Claim C7 (amended) at a frame with a null, a short and a long description under the
  header \<open>Descricao\<close>: only the long one survives.
\<close>

theorem clean_data_keeps_raw_length_witness:
  "find (\<lambda>col. col \<in> set (columns mixed_frame)) desc_columns = Some ''Descricao''
   \<and> wf_frame mixed_frame
   \<and> (\<exists>d'. clean_data mixed_frame = Inr d'
         \<and> map (\<lambda>r. cell_at r descricao_do_item) (rows d') = [Str ''parafuso sextavado''])"
proof -
  have f: "find (\<lambda>col. col \<in> set (columns mixed_frame)) desc_columns = Some ''Descricao''"
    by (simp add: mixed_frame_def desc_columns_def descricao_do_item_def)
  have w: "wf_frame mixed_frame"
    by (simp add: wf_frame_def mixed_frame_def)
  from clean_data_keeps_raw_length[OF f w] obtain d' where
    d': "clean_data mixed_frame = Inr d'"
    "map (\<lambda>r. cell_at r descricao_do_item) (rows d')
       = map Str (filter (\<lambda>s. 10 \<le> length s)
           (map py_str (filter (\<lambda>v. v \<noteq> NaN)
              (map (\<lambda>r. cell_at r ''Descricao'') (rows mixed_frame)))))"
    by blast
  have "map Str (filter (\<lambda>s. 10 \<le> length s)
           (map py_str (filter (\<lambda>v. v \<noteq> NaN)
              (map (\<lambda>r. cell_at r ''Descricao'') (rows mixed_frame)))))
        = [Str ''parafuso sextavado'']"
    by (simp add: mixed_frame_def cell_at_def)
  with d' f w show ?thesis by simp
qed

text \<open>
  Claim C7 as stated fails: a description of four letters followed by six spaces has 10
  characters, so its row survives cleaning unchanged, although the text is 4 characters
  long after trimming.
\<close>

theorem clean_data_keeps_padded_description:
  "clean_data padded_frame = Inr padded_frame
   \<and> cell_at (hd (rows padded_frame)) descricao_do_item = Str ''cabo      ''
   \<and> length (strip ''cabo      '') = 4"
  by (simp add: clean_data_def padded_frame_def desc_columns_def dropna_def astype_str_def
      keep_long_def cell_at_def set_cell_def str_len_def strip_def is_space_def)

text \<open>
  Claim C5, as the code has it. When the file is read under some candidate encoding, the
  frame is well-formed and has a description column, and every row has a null description
  or one of fewer than 10 characters, \<open>load_data\<close> raises nothing: it returns a frame
  without rows and keeps it in \<open>self.df\<close>.
\<close>

theorem load_data_empty_after_cleaning:
  assumes "encodings = pre @ enc # post"
    and "\<forall>x \<in> set pre. read_csv p x = Inl UnicodeDecodeError"
    and "read_csv p enc = Inr d"
    and "find (\<lambda>col. col \<in> set (columns d)) desc_columns = Some c"
    and "wf_frame d"
    and "\<forall>r \<in> set (rows d). cell_at r c = NaN \<or> length (py_str (cell_at r c)) < 10"
  shows "\<exists>d'. load_data read_csv s p = (Inr d', Some d', pre @ [enc]) \<and> rows d' = []"
proof -
  from clean_data_rows[OF assms(4,5)] obtain d' where
    d': "clean_data d = Inr d'"
    "map (\<lambda>r. cell_at r descricao_do_item) (rows d')
       = map Str (filter (\<lambda>s. 10 \<le> length s)
           (map py_str (filter (\<lambda>v. v \<noteq> NaN) (map (\<lambda>r. cell_at r c) (rows d)))))"
    by blast
  have "filter (\<lambda>s. 10 \<le> length s)
          (map py_str (filter (\<lambda>v. v \<noteq> NaN) (map (\<lambda>r. cell_at r c) (rows d)))) = []"
    using assms(6) by (auto simp: filter_empty_conv)
  with d'(2) have "rows d' = []" by simp
  moreover have "read_loop (read_csv p) encodings s [] = (Inr (Some d), pre @ [enc])"
    using read_loop_ok[OF assms(2,3), of post s "[]"] assms(1) by simp
  ultimately show ?thesis using d'(1) by (simp add: load_data_def)
qed

text \<open>
  Claim C5 (amended) at a file read under \<open>latin-1\<close> whose two rows have a null and a
  five-character description.
\<close>

theorem load_data_empty_after_cleaning_witness:
  "encodings = [''utf-8''] @ ''latin-1'' # [''cp1252'', ''iso-8859-1'']
   \<and> blank_csv ''catmat.csv'' ''utf-8'' = Inl UnicodeDecodeError
   \<and> blank_csv ''catmat.csv'' ''latin-1'' = Inr blank_frame
   \<and> wf_frame blank_frame
   \<and> (\<exists>d'. load_data blank_csv None ''catmat.csv'' = (Inr d', Some d', [''utf-8'', ''latin-1''])
         \<and> rows d' = [])"
proof -
  have a: "encodings = [''utf-8''] @ ''latin-1'' # [''cp1252'', ''iso-8859-1'']"
    by (simp add: encodings_def)
  have b: "\<forall>x \<in> set [''utf-8'']. blank_csv ''catmat.csv'' x = Inl UnicodeDecodeError"
    by (simp add: blank_csv_def)
  have c: "blank_csv ''catmat.csv'' ''latin-1'' = Inr blank_frame"
    by (simp add: blank_csv_def)
  have d: "find (\<lambda>col. col \<in> set (columns blank_frame)) desc_columns = Some ''Description''"
    by (simp add: blank_frame_def desc_columns_def descricao_do_item_def)
  have e: "wf_frame blank_frame"
    by (simp add: wf_frame_def blank_frame_def)
  have f: "\<forall>r \<in> set (rows blank_frame).
             cell_at r ''Description'' = NaN \<or> length (py_str (cell_at r ''Description'')) < 10"
    by (simp add: blank_frame_def cell_at_def)
  from load_data_empty_after_cleaning
         [where read_csv = blank_csv and p = "''catmat.csv''" and s = None, OF a b c d e f]
       a b c e show ?thesis
    by simp
qed

text \<open>
  Claim C5 as stated fails: for a file whose only row has the description \<open>cabo\<close>, loading
  succeeds and the frame returned has no row.
\<close>

theorem load_data_returns_empty_corpus:
  "load_data short_csv None ''catmat.csv''
   = (Inr \<lparr>columns = [descricao_do_item], rows = []\<rparr>,
      Some \<lparr>columns = [descricao_do_item], rows = []\<rparr>, [''utf-8''])"
  by (simp add: load_data_def encodings_def short_csv_def short_frame_def clean_data_def
      desc_columns_def dropna_def astype_str_def keep_long_def cell_at_def set_cell_def
      str_len_def)

text \<open>
  Claim C10 at a file that is not UTF-8 and is malformed CSV: \<open>utf-8\<close> fails to decode,
  \<open>latin-1\<close> raises a parser error, and the two remaining encodings are not tried.
\<close>

theorem load_data_fallthrough_witness:
  "encodings = [''utf-8''] @ ''latin-1'' # [''cp1252'', ''iso-8859-1'']
   \<and> broken_csv ''catmat.csv'' ''utf-8'' = Inl UnicodeDecodeError
   \<and> broken_csv ''catmat.csv'' ''latin-1'' = Inl ParserError
   \<and> load_data broken_csv None ''catmat.csv'' = (Inl ParserError, None, [''utf-8'', ''latin-1''])"
proof -
  have a: "encodings = [''utf-8''] @ ''latin-1'' # [''cp1252'', ''iso-8859-1'']"
    by (simp add: encodings_def)
  have b: "\<forall>x \<in> set [''utf-8'']. broken_csv ''catmat.csv'' x = Inl UnicodeDecodeError"
    by (simp add: broken_csv_def)
  have c: "broken_csv ''catmat.csv'' ''latin-1'' = Inl ParserError"
    by (simp add: broken_csv_def)
  from load_data_fallthrough_only_on_decode_error[of broken_csv None "''catmat.csv''"]
  have d: "load_data broken_csv None ''catmat.csv'' = (Inl ParserError, None, [''utf-8''] @ [''latin-1''])"
    using a b c by blast
  from a b c d show ?thesis by simp
qed



section \<open>Embedding generation\<close>

lemma concat_chunks:
  "concat (map (\<lambda>j. take b (drop (j * b) xs)) [0..<k]) = take (k * b) xs"
proof (induction k)
  case 0
  then show ?case by simp
next
  case (Suc k)
  have "take (k * b + b) xs = take (k * b) xs @ take b (drop (k * b) xs)"
    by (rule take_add)
  with Suc show ?case by (simp add: add.commute)
qed

lemma chunks_cover: "0 < b \<Longrightarrow> n \<le> (n + b - 1) div b * b" for n b :: nat
proof -
  assume b: "0 < b"
  have "(n + b - 1) div b * b + (n + b - 1) mod b = n + b - 1" by simp
  moreover have "(n + b - 1) mod b < b" using b by simp
  ultimately show ?thesis by linarith
qed

lemma run_pool_futures:
  "fst (fold (\<lambda>i (fut, evs).
             if i < length batches
             then (fut(i \<mapsto> g (batches ! i)), evs @ [Encode (batches ! i)])
             else (fut, evs)) sched (fut0, evs0)) i
   = (if i \<in> set sched \<and> i < length batches then Some (g (batches ! i)) else fut0 i)"
  by (induction sched arbitrary: fut0 evs0) auto

lemma collect_all:
  "(\<forall>i \<in> set ixs. fut i = Some (Inr (f i))) \<Longrightarrow>
   collect fut ixs acc = Some (Inr (acc @ map f ixs))"
  by (induction ixs arbitrary: acc) auto

lemma batches_concat:
  assumes "0 < b"
  shows "concat (map (\<lambda>i. take b (drop i xs)) (map (\<lambda>j. j * b) [0..<(length xs + b - 1) div b])) = xs"
proof -
  have "concat (map (\<lambda>i. take b (drop i xs)) (map (\<lambda>j. j * b) [0..<(length xs + b - 1) div b]))
        = take ((length xs + b - 1) div b * b) xs"
    using concat_chunks[of b xs "(length xs + b - 1) div b"] by (simp add: comp_def)
  also have "\<dots> = xs" using chunks_cover[OF assms, of "length xs"] by simp
  finally show ?thesis .
qed

lemma generate_embeddings_rebuild:
  assumes rebuild: "force_rebuild \<or> \<not> path_exists w (embeddings_path self)"
    and model: "model self = Some encode"
    and bs: "0 < batch_size self"
    and nw: "0 < n_workers self"
    and ne: "descriptions \<noteq> []"
    and starts: "py_range (length descriptions) (batch_size self) = Inr starts"
    and sched: "set sched = {0..<length starts}"
  shows "\<exists>evs. generate_embeddings sched kill descriptions force_rebuild self w
           = (case np_save kill (embeddings_path self)
                     (map (\<lambda>desc. encode (''passage: '' @ desc)) descriptions)
                     (w\<lparr>events := events w @ evs\<rparr>) of
                (False, w2) \<Rightarrow>
                  (None,
                   self\<lparr>embeddings := Some (map (\<lambda>desc. encode (''passage: '' @ desc)) descriptions)\<rparr>,
                   w2)
              | (True, w2) \<Rightarrow>
                  (Some (Inr ()),
                   self\<lparr>embeddings := Some (map (\<lambda>desc. encode (''passage: '' @ desc)) descriptions)\<rparr>,
                   w2))"
proof -
  define b where "b = nat (batch_size self)"
  define texts where "texts = map (\<lambda>desc. ''passage: '' @ desc) descriptions"
  define batches where "batches = map (\<lambda>i. take b (drop i texts)) starts"
  have b: "0 < b" using bs by (simp add: b_def)
  have st: "starts = map (\<lambda>j. j * b) [0..<(length texts + b - 1) div b]"
    using starts bs by (simp add: py_range_def b_def texts_def)
  have starts': "py_range (length texts) (batch_size self) = Inr starts"
    using starts by (simp add: texts_def)
  have cat: "concat batches = texts"
    unfolding batches_def st by (rule batches_concat[OF b])
  have len: "length batches = length starts" by (simp add: batches_def)
  have nonempty: "batches \<noteq> []"
    using ne cat by (auto simp: texts_def)
  obtain fut evs where rp: "run_pool self batches sched = (fut, evs)"
    by (cases "run_pool self batches sched")
  have fut: "fut i = Some (Inr (map encode (batches ! i)))" if "i < length batches" for i
  proof -
    have "fut i = fst (run_pool self batches sched) i" by (simp add: rp)
    also have "\<dots> = Some (generate_embeddings_batch self (batches ! i))"
      using run_pool_futures[of batches "generate_embeddings_batch self" sched Map.empty "[]" i]
        that sched len
      by (simp add: run_pool_def)
    finally show ?thesis by (simp add: generate_embeddings_batch_def model)
  qed
  have col: "collect fut [0..<length batches] [] = Some (Inr (map (map encode) batches))"
  proof -
    have "collect fut [0..<length batches] []
          = Some (Inr ([] @ map (\<lambda>i. map encode (batches ! i)) [0..<length batches]))"
      by (rule collect_all) (simp add: fut)
    also have "map (\<lambda>i. map encode (batches ! i)) [0..<length batches] = map (map encode) batches"
      by (rule nth_equalityI) simp_all
    finally show ?thesis by simp
  qed
  have vs: "np_vstack (map (map encode) batches) = Inr (map encode texts)"
    using nonempty cat by (simp add: np_vstack_def map_concat[symmetric])
  have emb: "map encode texts = map (\<lambda>desc. encode (''passage: '' @ desc)) descriptions"
    by (simp add: texts_def comp_def)
  have "generate_embeddings sched kill descriptions force_rebuild self w
        = (case np_save kill (embeddings_path self) (map encode texts)
                  (w\<lparr>events := events w @ evs\<rparr>) of
             (False, w2) \<Rightarrow> (None, self\<lparr>embeddings := Some (map encode texts)\<rparr>, w2)
           | (True, w2) \<Rightarrow> (Some (Inr ()), self\<lparr>embeddings := Some (map encode texts)\<rparr>, w2))"
    using rebuild nw
    by (auto simp: generate_embeddings_def Let_def texts_def[symmetric] b_def[symmetric]
        batches_def[symmetric] rp col col[unfolded len] vs starts' simp del: append.simps)
  then show ?thesis unfolding emb by blast
qed

lemma py_range_empty: "0 < step \<Longrightarrow> py_range 0 step = Inr []"
  by (simp add: py_range_def)

lemma generate_embeddings_empty:
  assumes "force_rebuild \<or> \<not> path_exists w (embeddings_path self)"
    and "0 < batch_size self" and "0 < n_workers self"
  shows "fst (generate_embeddings sched kill [] force_rebuild self w) = Some (Inl ValueError)"
  using assms
  by (auto simp: generate_embeddings_def py_range_empty run_pool_def np_vstack_def
      split: prod.splits)

text \<open>
  Claim C3. When the embeddings are generated (a rebuild is forced or no file is at the
  embeddings path) with a loaded model, a positive batch size and a positive number of
  workers, and the workers finish the batches in any order \<open>sched\<close> that holds every batch:
  for a non-empty corpus the call returns, the number of vectors is the number of
  descriptions, the vector at every ordinal \<open>i\<close> is the encoding of \<open>passage: \<close>
  followed by description \<open>i\<close>, and this matrix is what the embeddings file holds; for an
  empty corpus the call raises \<open>ValueError\<close> (\<open>np.vstack\<close> of no array).
\<close>

theorem generate_embeddings_ordinal_alignment:
  assumes "force_rebuild \<or> \<not> path_exists w (embeddings_path self)"
    and "model self = Some encode"
    and "0 < batch_size self"
    and "0 < n_workers self"
    and "py_range (length descriptions) (batch_size self) = Inr starts"
    and "set sched = {0..<length starts}"
  shows "(descriptions \<noteq> [] \<longrightarrow>
           (\<exists>embs w'. generate_embeddings sched None descriptions force_rebuild self w
                        = (Some (Inr ()), self\<lparr>embeddings := Some embs\<rparr>, w')
              \<and> length embs = length descriptions
              \<and> (\<forall>i < length descriptions. embs ! i = encode (''passage: '' @ descriptions ! i))
              \<and> files w' (npy_name (embeddings_path self)) = Some (NpyFile embs)))
       \<and> (descriptions = [] \<longrightarrow>
            fst (generate_embeddings sched None descriptions force_rebuild self w)
            = Some (Inl ValueError))"
proof (intro conjI impI)
  assume ne: "descriptions \<noteq> []"
  define embs where "embs = map (\<lambda>desc. encode (''passage: '' @ desc)) descriptions"
  from generate_embeddings_rebuild[OF assms(1-4) ne assms(5,6), of None]
  obtain evs where
    "generate_embeddings sched None descriptions force_rebuild self w
     = (Some (Inr ()), self\<lparr>embeddings := Some embs\<rparr>,
        log_event (SaveFile (npy_name (embeddings_path self)))
          (w\<lparr>events := events w @ evs,
             files := (files w)(npy_name (embeddings_path self) \<mapsto> NpyFile embs)\<rparr>))"
    by (auto simp: np_save_def write_in_place_def embs_def simp del: append.simps)
  moreover have "length embs = length descriptions" by (simp add: embs_def)
  moreover have "\<forall>i < length descriptions. embs ! i = encode (''passage: '' @ descriptions ! i)"
    by (simp add: embs_def del: append.simps)
  ultimately show
    "\<exists>embs w'. generate_embeddings sched None descriptions force_rebuild self w
                  = (Some (Inr ()), self\<lparr>embeddings := Some embs\<rparr>, w')
        \<and> length embs = length descriptions
        \<and> (\<forall>i < length descriptions. embs ! i = encode (''passage: '' @ descriptions ! i))
        \<and> files w' (npy_name (embeddings_path self)) = Some (NpyFile embs)"
    by (intro exI[of _ embs] exI) (auto simp: log_event_def simp del: append.simps)
next
  assume "descriptions = []"
  with generate_embeddings_empty[OF assms(1,3,4)] show
    "fst (generate_embeddings sched None descriptions force_rebuild self w) = Some (Inl ValueError)"
    by simp
qed

text \<open>
  Claim C3 at three descriptions in batches of two, the second batch finishing first.
\<close>

theorem generate_embeddings_ordinal_alignment_witness:
  "py_range (length toy_descriptions) (batch_size toy_engine) = Inr [0, 2]
   \<and> (\<exists>embs w'. generate_embeddings [1, 0] None toy_descriptions False toy_engine empty_world
                   = (Some (Inr ()), toy_engine\<lparr>embeddings := Some embs\<rparr>, w')
         \<and> length embs = 3
         \<and> embs ! 2 = toy_encode ''passage: tinta acrilica branca''
         \<and> files w' ''catmat_embeddings.npy'' = Some (NpyFile embs))"
proof -
  have a: "False \<or> \<not> path_exists empty_world (embeddings_path toy_engine)"
    by (simp add: path_exists_def empty_world_def)
  have b: "model toy_engine = Some toy_encode" by (simp add: toy_engine_def)
  have c: "0 < batch_size toy_engine" by (simp add: toy_engine_def)
  have d: "0 < n_workers toy_engine" by (simp add: toy_engine_def)
  have e: "py_range (length toy_descriptions) (batch_size toy_engine) = Inr [0, 2]"
    by (simp add: py_range_def toy_descriptions_def toy_engine_def upt_rec)
  have f: "set [1, 0 :: nat] = {0..<length [0, 2 :: nat]}" by auto
  have g: "toy_descriptions \<noteq> []" by (simp add: toy_descriptions_def)
  have h: "npy_name (embeddings_path toy_engine) = ''catmat_embeddings.npy''"
    by (simp add: npy_name_def toy_engine_def suffix_def)
  from generate_embeddings_ordinal_alignment[OF a b c d e f] g
  obtain embs w' where
    r: "generate_embeddings [1, 0] None toy_descriptions False toy_engine empty_world
         = (Some (Inr ()), toy_engine\<lparr>embeddings := Some embs\<rparr>, w')"
      "length embs = length toy_descriptions"
      "\<forall>i < length toy_descriptions. embs ! i = toy_encode (''passage: '' @ toy_descriptions ! i)"
      "files w' (npy_name (embeddings_path toy_engine)) = Some (NpyFile embs)"
    by blast
  have "embs ! 2 = toy_encode ''passage: tinta acrilica branca''"
    using r(3) by (simp add: toy_descriptions_def)
  with r e h show ?thesis by (auto simp: toy_descriptions_def)
qed

section \<open>The index and the search\<close>

lemma create_hnsw_index_rebuild:
  assumes "force_rebuild \<or> \<not> path_exists w (index_path self)"
    and "embeddings self = Some m"
    and "\<forall>v \<in> set m. length v = shape1 m"
  shows "create_hnsw_index kill force_rebuild self w
         = (case pickle_dump kill (index_path self)
                   \<lparr>dim = shape1 m, hnsw_M = hnsw_m self, metric_type = METRIC_L2, xb = m\<rparr>
                   (log_event (BuildIndex (length m)) w) of
              (False, w2) \<Rightarrow>
                (None,
                 self\<lparr>index := Some \<lparr>dim = shape1 m, hnsw_M = hnsw_m self,
                                     metric_type = METRIC_L2, xb = m\<rparr>\<rparr>, w2)
            | (True, w2) \<Rightarrow>
                (Some (Inr ()),
                 self\<lparr>index := Some \<lparr>dim = shape1 m, hnsw_M = hnsw_m self,
                                     metric_type = METRIC_L2, xb = m\<rparr>\<rparr>, w2))"
  using assms
  by (auto simp: create_hnsw_index_def IndexHNSWFlat_def index_add_def ntotal_def Let_def)

lemma ranked_l2_sorted:
  "metric_type idx = METRIC_L2 \<Longrightarrow> sorted (map fst (ranked idx q))"
  by (simp add: ranked_def)

lemma ranked_length: "length (ranked idx q) = length (xb idx)"
  by (cases "metric_type idx") (simp_all add: ranked_def ntotal_def)

lemma ranked_l2_member:
  assumes "metric_type idx = METRIC_L2" and "p \<in> set (ranked idx q)"
  shows "0 \<le> snd p \<and> nat (snd p) < length (xb idx)
         \<and> fst p = fvec_L2sqr q (xb idx ! nat (snd p))"
proof -
  from assms have "p \<in> set (zip (map (fvec_L2sqr q) (xb idx)) (map int [0..<length (xb idx)]))"
    by (simp add: ranked_def ntotal_def)
  then obtain j where j: "j < length (xb idx)"
    "p = (map (fvec_L2sqr q) (xb idx) ! j, map int [0..<length (xb idx)] ! j)"
    by (auto simp: set_zip)
  then show ?thesis by simp
qed

lemma distinct_snd_sort_key:
  "distinct (map snd zs) \<Longrightarrow> distinct (map snd (sort_key f zs))"
  by (simp add: distinct_map)

lemma ranked_ordinals_distinct: "distinct (map snd (ranked idx q))"
proof -
  have "distinct (map int [0..<length (xb idx)])"
    by (simp add: distinct_map)
  then show ?thesis
    by (cases "metric_type idx") (simp_all add: ranked_def ntotal_def distinct_snd_sort_key)
qed


lemma search_one_l2:
  assumes "metric_type idx = METRIC_L2"
  shows "search_one idx k q
         = (map fst (take (nat k) (ranked idx q)) @ replicate (nat k - length (xb idx)) FLT_MAX,
            map snd (take (nat k) (ranked idx q)) @ replicate (nat k - length (xb idx)) (- 1))"
proof -
  have "nat k - min (length (xb idx)) (nat k) = nat k - length (xb idx)" by simp
  then show ?thesis
    using assms by (simp add: search_one_def no_hit_def ranked_length Let_def)
qed

lemma fvec_L2sqr_expand:
  "length x = length y \<Longrightarrow>
   fvec_L2sqr x y = fvec_inner_product x x + fvec_inner_product y y - 2 * fvec_inner_product x y"
  unfolding fvec_L2sqr_def fvec_inner_product_def
  by (induction x y rule: list_induct2) (simp_all add: algebra_simps)

lemma engine_search_built:
  assumes idx: "index self = Some idx" and l2: "metric_type idx = METRIC_L2"
    and q: "length q = dim idx" and k: "0 < top_k"
  shows "engine_search self [q] top_k
         = Inr ([map fst (take (nat top_k) (ranked idx q))
                   @ replicate (nat top_k - length (xb idx)) FLT_MAX],
                [map snd (take (nat top_k) (ranked idx q))
                   @ replicate (nat top_k - length (xb idx)) (- 1)])"
  using assms by (simp add: engine_search_def index_search_def search_one_l2)

lemma built_index:
  assumes "force_rebuild \<or> \<not> path_exists w (index_path self)"
    and "embeddings self = Some m"
    and "\<forall>v \<in> set m. length v = shape1 m"
  shows "index (fst (snd (create_hnsw_index kill force_rebuild self w)))
         = Some \<lparr>dim = shape1 m, hnsw_M = hnsw_m self, metric_type = METRIC_L2, xb = m\<rparr>"
  unfolding create_hnsw_index_rebuild[OF assms]
  by (simp add: pickle_dump_def write_in_place_def split: option.splits)

text \<open>
  Claim C1, as the code has it. \<open>create_hnsw_index\<close> builds the index with
  \<open>faiss.IndexHNSWFlat(dimension, M)\<close>, that is with the metric \<open>METRIC_L2\<close>. For an index
  built from the embeddings \<open>m\<close> and a query vector of their dimension, the scores returned
  for the found vectors are their squared Euclidean distances to the query, in
  non-decreasing order (a lower score is a closer match); after them come the padding
  scores. For a query and a catalogue vector of norm 1 the score is \<open>2 - 2 * ip\<close>, so the
  order is that of descending inner product.
\<close>

theorem search_scores_are_ascending_l2_distances:
  assumes "force_rebuild \<or> \<not> path_exists w (index_path self)"
    and "embeddings self = Some m"
    and "\<forall>v \<in> set m. length v = shape1 m"
    and "length q = shape1 m"
    and "0 < top_k"
  shows "\<exists>idx dists ordinals.
           index (fst (snd (create_hnsw_index None force_rebuild self w))) = Some idx
         \<and> metric_type idx = METRIC_L2 \<and> xb idx = m
         \<and> engine_search (fst (snd (create_hnsw_index None force_rebuild self w))) [q] top_k
             = Inr ([dists @ replicate (nat top_k - length m) FLT_MAX], [ordinals])
         \<and> length dists = min (nat top_k) (length m)
         \<and> sorted dists
         \<and> (\<forall>j < length dists.
               dists ! j = fvec_L2sqr q (m ! nat (ordinals ! j))
             \<and> (fvec_inner_product q q = 1
                  \<and> fvec_inner_product (m ! nat (ordinals ! j)) (m ! nat (ordinals ! j)) = 1
                \<longrightarrow> dists ! j = 2 - 2 * fvec_inner_product q (m ! nat (ordinals ! j))))"
proof -
  define idx where
    "idx = \<lparr>dim = shape1 m, hnsw_M = hnsw_m self, metric_type = METRIC_L2, xb = m\<rparr>"
  define self' where "self' = fst (snd (create_hnsw_index None force_rebuild self w))"
  define found where "found = take (nat top_k) (ranked idx q)"
  define dists where "dists = map fst found"
  define ordinals where "ordinals = map snd found @ replicate (nat top_k - length m) (- 1)"
  have i: "index self' = Some idx"
    unfolding self'_def idx_def by (rule built_index[OF assms(1-3)])
  have l2: "metric_type idx = METRIC_L2" and xb: "xb idx = m" and dm: "dim idx = shape1 m"
    by (simp_all add: idx_def)
  have es: "engine_search self' [q] top_k
            = Inr ([dists @ replicate (nat top_k - length m) FLT_MAX], [ordinals])"
    using engine_search_built[OF i l2 _ assms(5), of q] assms(4) dm
    by (simp add: dists_def ordinals_def found_def xb)
  have len: "length dists = min (nat top_k) (length m)"
    by (simp add: dists_def found_def ranked_length xb min.commute)
  have srt: "sorted dists"
    unfolding dists_def found_def
    using ranked_l2_sorted[OF l2, of q] by (simp add: take_map[symmetric] sorted_wrt_take)
  have pt: "dists ! j = fvec_L2sqr q (m ! nat (ordinals ! j))
            \<and> (fvec_inner_product q q = 1
                 \<and> fvec_inner_product (m ! nat (ordinals ! j)) (m ! nat (ordinals ! j)) = 1
               \<longrightarrow> dists ! j = 2 - 2 * fvec_inner_product q (m ! nat (ordinals ! j)))"
    if j: "j < length dists" for j
  proof -
    from j have jf: "j < length found" by (simp add: dists_def)
    then have mem: "found ! j \<in> set (ranked idx q)"
      unfolding found_def by (meson in_set_takeD nth_mem)
    from ranked_l2_member[OF l2 mem] xb
    have r: "0 \<le> snd (found ! j)" "nat (snd (found ! j)) < length m"
      "fst (found ! j) = fvec_L2sqr q (m ! nat (snd (found ! j)))" by simp_all
    have o: "ordinals ! j = snd (found ! j)"
      using jf by (simp add: ordinals_def nth_append)
    have d: "dists ! j = fvec_L2sqr q (m ! nat (ordinals ! j))"
      using jf r(3) o by (simp add: dists_def)
    have "length (m ! nat (ordinals ! j)) = shape1 m"
      using assms(3) r(2) o by simp
    with assms(4) have "length q = length (m ! nat (ordinals ! j))" by simp
    from fvec_L2sqr_expand[OF this] d show ?thesis by simp
  qed
  from i l2 xb es len srt pt show ?thesis unfolding self'_def by blast
qed


lemma built_engine_index: "index built_engine = Some unit_index"
  by (simp add: built_engine_def create_hnsw_index_def unit_engine_def unit_vectors_def
      IndexHNSWFlat_def index_add_def shape1_def pickle_dump_def write_in_place_def Let_def
      unit_index_def)

lemma built_engine_model: "model built_engine = Some unit_encode"
  by (simp add: built_engine_def create_hnsw_index_def unit_engine_def unit_vectors_def
      IndexHNSWFlat_def index_add_def shape1_def pickle_dump_def write_in_place_def Let_def)

lemma dim_unit_index: "dim unit_index = 2"
  by (simp add: unit_index_def)

lemma ranked_unit: "ranked unit_index [1, 0] = [(0, 0), (4 / 5, 1), (2, 2)]"
  by (simp add: unit_index_def ranked_def ntotal_def unit_vectors_def fvec_L2sqr_def upt_rec)

lemma search_one_unit_3: "search_one unit_index 3 [1, 0] = ([0, 4 / 5, 2], [0, 1, 2])"
  by (simp add: search_one_def ranked_unit Let_def)

lemma search_one_unit_5:
  "search_one unit_index 5 [1, 0] = ([0, 4 / 5, 2, FLT_MAX, FLT_MAX], [0, 1, 2, - 1, - 1])"
proof -
  have "no_hit unit_index = (FLT_MAX, - 1)" by (simp add: no_hit_def unit_index_def)
  then show ?thesis by (simp add: search_one_def ranked_unit Let_def numeral_2_eq_2)
qed

text \<open>
  Claim C2, as the code has it. For an index built from \<open>n\<close> embeddings, a query whose
  embedding has their dimension and a positive \<open>top_k\<close>, resolving the query returns
  exactly \<open>top_k\<close> scores and \<open>top_k\<close> ordinals: the first \<open>min top_k n\<close> ordinals are distinct
  ordinals of the catalogue, the other \<open>top_k - n\<close> slots hold the ordinal \<open>-1\<close> and the
  score \<open>FLT_MAX\<close>.
\<close>

theorem resolve_returns_top_k_slots:
  assumes "force_rebuild \<or> \<not> path_exists w (index_path self)"
    and "embeddings self = Some m"
    and "\<forall>v \<in> set m. length v = shape1 m"
    and "model self = Some encode"
    and "length (encode (''query: '' @ query)) = shape1 m"
    and "0 < top_k"
  shows "\<exists>qe scores valid.
           generate_query_embedding (fst (snd (create_hnsw_index None force_rebuild self w))) query
             = Inr qe
         \<and> engine_search (fst (snd (create_hnsw_index None force_rebuild self w))) qe top_k
             = Inr ([scores], [valid @ replicate (nat top_k - length m) (- 1)])
         \<and> length scores = nat top_k
         \<and> length (valid @ replicate (nat top_k - length m) (- 1)) = nat top_k
         \<and> length valid = min (nat top_k) (length m)
         \<and> distinct valid
         \<and> (\<forall>i \<in> set valid. 0 \<le> i \<and> i < int (length m))
         \<and> drop (length m) scores = replicate (nat top_k - length m) FLT_MAX"
proof -
  define idx where
    "idx = \<lparr>dim = shape1 m, hnsw_M = hnsw_m self, metric_type = METRIC_L2, xb = m\<rparr>"
  define self' where "self' = fst (snd (create_hnsw_index None force_rebuild self w))"
  define q where "q = encode (''query: '' @ query)"
  define found where "found = take (nat top_k) (ranked idx q)"
  define scores where "scores = map fst found @ replicate (nat top_k - length m) FLT_MAX"
  define valid where "valid = map snd found"
  have i: "index self' = Some idx"
    unfolding self'_def idx_def by (rule built_index[OF assms(1-3)])
  have l2: "metric_type idx = METRIC_L2" and xb: "xb idx = m" and dm: "dim idx = shape1 m"
    by (simp_all add: idx_def)
  have "model self' = Some encode"
    unfolding self'_def create_hnsw_index_rebuild[OF assms(1-3)]
    by (simp add: pickle_dump_def write_in_place_def assms(4))
  then have qe: "generate_query_embedding self' query = Inr [q]"
    by (simp add: generate_query_embedding_def q_def del: append.simps)
  have es: "engine_search self' [q] top_k
            = Inr ([scores], [valid @ replicate (nat top_k - length m) (- 1)])"
    using engine_search_built[OF i l2 _ assms(6), of q] assms(5) dm
    by (simp add: scores_def valid_def found_def xb q_def del: append.simps)
  have lf: "length found = min (nat top_k) (length m)"
    by (simp add: found_def ranked_length xb min.commute)
  have ls: "length scores = nat top_k" and lv: "length valid = min (nat top_k) (length m)"
    using lf by (simp_all add: scores_def valid_def)
  have lo: "length (valid @ replicate (nat top_k - length m) (- 1)) = nat top_k"
    using lv by simp
  have dv: "distinct valid"
    unfolding valid_def found_def take_map[symmetric]
    using ranked_ordinals_distinct[of idx q] by (rule distinct_take)
  have rg: "\<forall>i \<in> set valid. 0 \<le> i \<and> i < int (length m)"
  proof
    fix i assume "i \<in> set valid"
    then obtain p where p: "p \<in> set found" "i = snd p" by (auto simp: valid_def)
    then have "p \<in> set (ranked idx q)" unfolding found_def by (meson in_set_takeD)
    from ranked_l2_member[OF l2 this] xb p(2) show "0 \<le> i \<and> i < int (length m)" by auto
  qed
  have dr: "drop (length m) scores = replicate (nat top_k - length m) FLT_MAX"
  proof (cases "length m \<le> nat top_k")
    case True
    with lf have "length (map fst found) = length m" by simp
    then show ?thesis by (simp add: scores_def)
  next
    case False
    then show ?thesis using ls by simp
  qed
  from qe es ls lo lv dv rg dr show ?thesis unfolding self'_def by blast
qed

text \<open>
  Claim C1 as stated fails: for the unit vectors \<open>(1, 0)\<close>, \<open>(3/5, 4/5)\<close>, \<open>(0, 1)\<close> and the
  query \<open>(1, 0)\<close> the scores returned are \<open>0, 4/5, 2\<close>, increasing by position, where the
  inner products are \<open>1, 3/5, 0\<close>.
\<close>

theorem search_scores_ascend_on_unit_vectors:
  "engine_search built_engine [[1, 0]] 3 = Inr ([[0, 4 / 5, 2]], [[0, 1, 2]])
   \<and> fvec_inner_product [1, 0] (unit_vectors ! 0) = 1
   \<and> fvec_inner_product [1, 0] (unit_vectors ! 1) = 3 / 5
   \<and> fvec_inner_product [1, 0] (unit_vectors ! 2) = 0"
  by (simp add: engine_search_def built_engine_index index_search_def search_one_unit_3
      dim_unit_index fvec_inner_product_def unit_vectors_def)

text \<open>
  Claim C2 as stated fails: with three vectors in the index and \<open>top_k = 5\<close> the resolver
  returns five pairs, the last two being the ordinal \<open>-1\<close> with the score \<open>FLT_MAX\<close>.
\<close>

theorem resolve_pads_small_index:
  "generate_query_embedding built_engine ''parafuso'' = Inr [[1, 0]]
   \<and> engine_search built_engine [[1, 0]] 5
       = Inr ([[0, 4 / 5, 2, FLT_MAX, FLT_MAX]], [[0, 1, 2, - 1, - 1]])"
  by (simp add: generate_query_embedding_def built_engine_model unit_encode_def
      engine_search_def built_engine_index index_search_def search_one_unit_5 dim_unit_index)


lemma unit_vectors_rows: "\<forall>v \<in> set unit_vectors. length v = shape1 unit_vectors"
  by (simp add: unit_vectors_def shape1_def)

text \<open>
  Claim C1 (amended) at three unit vectors and \<open>top_k = 2\<close>.
\<close>

theorem search_scores_are_ascending_l2_distances_witness:
  "embeddings unit_engine = Some unit_vectors
   \<and> length [1, 0 :: rat] = shape1 unit_vectors
   \<and> (\<exists>idx dists ordinals.
         index (fst (snd (create_hnsw_index None True unit_engine empty_world))) = Some idx
       \<and> metric_type idx = METRIC_L2
       \<and> engine_search (fst (snd (create_hnsw_index None True unit_engine empty_world)))
            [[1, 0]] 2
           = Inr ([dists], [ordinals])
       \<and> length dists = 2 \<and> sorted dists)"
proof -
  have a: "True \<or> \<not> path_exists empty_world (index_path unit_engine)" by simp
  have b: "embeddings unit_engine = Some unit_vectors" by (simp add: unit_engine_def)
  have c: "length [1, 0 :: rat] = shape1 unit_vectors"
    by (simp add: unit_vectors_def shape1_def)
  have d: "(0 :: int) < 2" by simp
  from search_scores_are_ascending_l2_distances[OF a b unit_vectors_rows c d]
  obtain idx dists ordinals where
    r: "index (fst (snd (create_hnsw_index None True unit_engine empty_world))) = Some idx"
      "metric_type idx = METRIC_L2"
      "engine_search (fst (snd (create_hnsw_index None True unit_engine empty_world))) [[1, 0]] 2
        = Inr ([dists @ replicate (nat 2 - length unit_vectors) FLT_MAX], [ordinals])"
      "length dists = min (nat 2) (length unit_vectors)"
      "sorted dists"
    by blast
  have "nat 2 - length unit_vectors = 0" "min (nat 2) (length unit_vectors) = 2"
    by (simp_all add: unit_vectors_def)
  with r have
    "engine_search (fst (snd (create_hnsw_index None True unit_engine empty_world))) [[1, 0]] 2
        = Inr ([dists], [ordinals])" "length dists = 2"
    by simp_all
  with r(1,2,5) b c show ?thesis by blast
qed

text \<open>
  Claim C2 (amended) at an index of three vectors and \<open>top_k = 4\<close>.
\<close>

theorem resolve_returns_top_k_slots_witness:
  "embeddings unit_engine = Some unit_vectors
   \<and> model unit_engine = Some unit_encode
   \<and> (\<exists>qe scores valid.
         generate_query_embedding (fst (snd (create_hnsw_index None True unit_engine empty_world)))
           ''parafuso'' = Inr qe
       \<and> engine_search (fst (snd (create_hnsw_index None True unit_engine empty_world))) qe 4
           = Inr ([scores], [valid @ [- 1]])
       \<and> length scores = 4 \<and> length valid = 3 \<and> distinct valid
       \<and> drop 3 scores = [FLT_MAX])"
proof -
  have a: "True \<or> \<not> path_exists empty_world (index_path unit_engine)" by simp
  have b: "embeddings unit_engine = Some unit_vectors" by (simp add: unit_engine_def)
  have c: "model unit_engine = Some unit_encode" by (simp add: unit_engine_def)
  have d: "length (unit_encode (''query: '' @ ''parafuso'')) = shape1 unit_vectors"
    by (simp add: unit_encode_def unit_vectors_def shape1_def)
  have e: "(0 :: int) < 4" by simp
  from resolve_returns_top_k_slots[OF a b unit_vectors_rows c d e]
  obtain qe scores valid where
    r: "generate_query_embedding (fst (snd (create_hnsw_index None True unit_engine empty_world)))
           ''parafuso'' = Inr qe"
      "engine_search (fst (snd (create_hnsw_index None True unit_engine empty_world))) qe 4
           = Inr ([scores], [valid @ replicate (nat 4 - length unit_vectors) (- 1)])"
      "length scores = nat 4"
      "length valid = min (nat 4) (length unit_vectors)"
      "distinct valid"
      "drop (length unit_vectors) scores = replicate (nat 4 - length unit_vectors) FLT_MAX"
    by blast
  have n: "nat 4 - length unit_vectors = 1" "min (nat 4) (length unit_vectors) = 3"
    "length unit_vectors = 3" "nat 4 = 4"
    by (simp_all add: unit_vectors_def)
  from r(2,3,4,6) have
    "engine_search (fst (snd (create_hnsw_index None True unit_engine empty_world))) qe 4
           = Inr ([scores], [valid @ [- 1]])"
    "length scores = 4" "length valid = 3" "drop 3 scores = [FLT_MAX]"
    unfolding n by simp_all
  with r(1,5) b c show ?thesis by blast
qed



section \<open>Persisting and reloading the artifacts\<close>

lemma generate_embeddings_files:
  assumes "force_rebuild \<or> \<not> path_exists w (embeddings_path self)"
    and "model self = Some encode"
    and "0 < batch_size self"
    and "0 < n_workers self"
    and "descriptions \<noteq> []"
    and "py_range (length descriptions) (batch_size self) = Inr starts"
    and "set sched = {0..<length starts}"
  shows "fst (generate_embeddings sched kill descriptions force_rebuild self w)
         = (case kill of None \<Rightarrow> Some (Inr ()) | Some n \<Rightarrow> None)"
    and "files (snd (snd (generate_embeddings sched kill descriptions force_rebuild self w)))
         = (files w)(npy_name (embeddings_path self) \<mapsto>
              (case kill of
                 None \<Rightarrow> NpyFile (map (\<lambda>desc. encode (''passage: '' @ desc)) descriptions)
               | Some n \<Rightarrow> Torn n))"
proof -
  from generate_embeddings_rebuild[OF assms, of kill] obtain evs where
    g: "generate_embeddings sched kill descriptions force_rebuild self w
        = (case np_save kill (embeddings_path self)
                  (map (\<lambda>desc. encode (''passage: '' @ desc)) descriptions)
                  (w\<lparr>events := events w @ evs\<rparr>) of
             (False, w2) \<Rightarrow>
               (None,
                self\<lparr>embeddings := Some (map (\<lambda>desc. encode (''passage: '' @ desc)) descriptions)\<rparr>,
                w2)
           | (True, w2) \<Rightarrow>
               (Some (Inr ()),
                self\<lparr>embeddings := Some (map (\<lambda>desc. encode (''passage: '' @ desc)) descriptions)\<rparr>,
                w2))"
    by blast
  show "fst (generate_embeddings sched kill descriptions force_rebuild self w)
         = (case kill of None \<Rightarrow> Some (Inr ()) | Some n \<Rightarrow> None)"
    unfolding g
    by (simp add: np_save_def write_in_place_def split: option.splits del: append.simps)
  show "files (snd (snd (generate_embeddings sched kill descriptions force_rebuild self w)))
         = (files w)(npy_name (embeddings_path self) \<mapsto>
              (case kill of
                 None \<Rightarrow> NpyFile (map (\<lambda>desc. encode (''passage: '' @ desc)) descriptions)
               | Some n \<Rightarrow> Torn n))"
    unfolding g
    by (simp add: np_save_def write_in_place_def log_event_def split: option.splits
        del: append.simps)
qed

lemma create_hnsw_index_files:
  assumes "force_rebuild \<or> \<not> path_exists w (index_path self)"
    and "embeddings self = Some m"
    and "\<forall>v \<in> set m. length v = shape1 m"
  shows "fst (create_hnsw_index kill force_rebuild self w)
         = (case kill of None \<Rightarrow> Some (Inr ()) | Some n \<Rightarrow> None)"
    and "files (snd (snd (create_hnsw_index kill force_rebuild self w)))
         = (files w)(index_path self \<mapsto>
              (case kill of
                 None \<Rightarrow> PickleFile \<lparr>dim = shape1 m, hnsw_M = hnsw_m self,
                                      metric_type = METRIC_L2, xb = m\<rparr>
               | Some n \<Rightarrow> Torn n))"
  unfolding create_hnsw_index_rebuild[OF assms]
  by (simp_all add: pickle_dump_def write_in_place_def log_event_def split: option.splits)

text \<open>
  Claim C4, as the code has it. Both writers write the artifact in place, at its final
  path: \<open>np.save\<close> and \<open>open(path, 'wb')\<close> with \<open>pickle.dump\<close> use no temporary file and
  no rename. A rebuild that completes leaves the new artifact at the path. A rebuild
  killed when \<open>n\<close> bytes are written does not return and leaves at the path the torn file
  of \<open>n\<close> bytes, whatever the path held before; no other path is changed.
\<close>

theorem artifacts_written_in_place:
  "((force_rebuild \<or> \<not> path_exists w (embeddings_path self)) \<and> model self = Some encode
     \<and> 0 < batch_size self \<and> 0 < n_workers self \<and> descriptions \<noteq> []
     \<and> py_range (length descriptions) (batch_size self) = Inr starts
     \<and> set sched = {0..<length starts}
    \<longrightarrow> fst (generate_embeddings sched (Some n) descriptions force_rebuild self w) = None
      \<and> files (snd (snd (generate_embeddings sched (Some n) descriptions force_rebuild self w)))
          = (files w)(npy_name (embeddings_path self) \<mapsto> Torn n)
      \<and> fst (generate_embeddings sched None descriptions force_rebuild self w) = Some (Inr ())
      \<and> files (snd (snd (generate_embeddings sched None descriptions force_rebuild self w)))
          = (files w)(npy_name (embeddings_path self) \<mapsto>
               NpyFile (map (\<lambda>desc. encode (''passage: '' @ desc)) descriptions)))
   \<and> ((force_rebuild \<or> \<not> path_exists w (index_path self)) \<and> embeddings self = Some m
       \<and> (\<forall>v \<in> set m. length v = shape1 m)
    \<longrightarrow> fst (create_hnsw_index (Some n) force_rebuild self w) = None
      \<and> files (snd (snd (create_hnsw_index (Some n) force_rebuild self w)))
          = (files w)(index_path self \<mapsto> Torn n)
      \<and> fst (create_hnsw_index None force_rebuild self w) = Some (Inr ())
      \<and> files (snd (snd (create_hnsw_index None force_rebuild self w)))
          = (files w)(index_path self \<mapsto>
               PickleFile \<lparr>dim = shape1 m, hnsw_M = hnsw_m self,
                            metric_type = METRIC_L2, xb = m\<rparr>))"
proof (intro conjI impI)
  assume a: "(force_rebuild \<or> \<not> path_exists w (embeddings_path self)) \<and> model self = Some encode
     \<and> 0 < batch_size self \<and> 0 < n_workers self \<and> descriptions \<noteq> []
     \<and> py_range (length descriptions) (batch_size self) = Inr starts
     \<and> set sched = {0..<length starts}"
  then have h: "force_rebuild \<or> \<not> path_exists w (embeddings_path self)"
    "model self = Some encode" "0 < batch_size self" "0 < n_workers self" "descriptions \<noteq> []"
    "py_range (length descriptions) (batch_size self) = Inr starts"
    "set sched = {0..<length starts}" by blast+
  show "fst (generate_embeddings sched (Some n) descriptions force_rebuild self w) = None"
    using generate_embeddings_files(1)[OF h, of "Some n"] by simp
  show "files (snd (snd (generate_embeddings sched (Some n) descriptions force_rebuild self w)))
          = (files w)(npy_name (embeddings_path self) \<mapsto> Torn n)"
    using generate_embeddings_files(2)[OF h, of "Some n"] by simp
  show "fst (generate_embeddings sched None descriptions force_rebuild self w) = Some (Inr ())"
    using generate_embeddings_files(1)[OF h, of None] by simp
  show "files (snd (snd (generate_embeddings sched None descriptions force_rebuild self w)))
          = (files w)(npy_name (embeddings_path self) \<mapsto>
               NpyFile (map (\<lambda>desc. encode (''passage: '' @ desc)) descriptions))"
    using generate_embeddings_files(2)[OF h, of None] by simp
next
  assume a: "(force_rebuild \<or> \<not> path_exists w (index_path self)) \<and> embeddings self = Some m
       \<and> (\<forall>v \<in> set m. length v = shape1 m)"
  then have h: "force_rebuild \<or> \<not> path_exists w (index_path self)" "embeddings self = Some m"
    "\<forall>v \<in> set m. length v = shape1 m" by blast+
  show "fst (create_hnsw_index (Some n) force_rebuild self w) = None"
    using create_hnsw_index_files(1)[OF h, of "Some n"] by simp
  show "files (snd (snd (create_hnsw_index (Some n) force_rebuild self w)))
          = (files w)(index_path self \<mapsto> Torn n)"
    using create_hnsw_index_files(2)[OF h, of "Some n"] by simp
  show "fst (create_hnsw_index None force_rebuild self w) = Some (Inr ())"
    using create_hnsw_index_files(1)[OF h, of None] by simp
  show "files (snd (snd (create_hnsw_index None force_rebuild self w)))
          = (files w)(index_path self \<mapsto>
               PickleFile \<lparr>dim = shape1 m, hnsw_M = hnsw_m self,
                            metric_type = METRIC_L2, xb = m\<rparr>)"
    using create_hnsw_index_files(2)[OF h, of None] by simp
qed

lemma toy_range: "py_range (length toy_descriptions) (batch_size toy_engine) = Inr [0, 2]"
  by (simp add: py_range_def toy_descriptions_def toy_engine_def upt_rec)

lemma toy_npy_name: "npy_name (embeddings_path toy_engine) = ''catmat_embeddings.npy''"
  by (simp add: npy_name_def toy_engine_def suffix_def)

lemma unit_range: "py_range (length toy_descriptions) (batch_size unit_engine) = Inr [0, 2]"
  by (simp add: py_range_def toy_descriptions_def unit_engine_def upt_rec)

text \<open>
  Claim C4 (amended) at a build from nothing that is killed after 16 bytes of either file.
\<close>

theorem artifacts_written_in_place_witness:
  "model unit_engine = Some unit_encode
   \<and> embeddings unit_engine = Some unit_vectors
   \<and> fst (generate_embeddings [0, 1] (Some 16) toy_descriptions False unit_engine empty_world) = None
   \<and> files (snd (snd (generate_embeddings [0, 1] (Some 16) toy_descriptions False unit_engine
                         empty_world))) ''catmat_embeddings.npy'' = Some (Torn 16)
   \<and> fst (create_hnsw_index (Some 16) False unit_engine empty_world) = None
   \<and> files (snd (snd (create_hnsw_index (Some 16) False unit_engine empty_world)))
        ''catmat_hnsw_index.pkl'' = Some (Torn 16)"
proof -
  have a: "False \<or> \<not> path_exists empty_world (embeddings_path unit_engine)"
    by (simp add: path_exists_def empty_world_def)
  have b: "model unit_engine = Some unit_encode" by (simp add: unit_engine_def)
  have c: "0 < batch_size unit_engine" "0 < n_workers unit_engine"
    by (simp_all add: unit_engine_def)
  have d: "toy_descriptions \<noteq> []" by (simp add: toy_descriptions_def)
  have e: "set [0, 1 :: nat] = {0..<length [0, 2 :: nat]}" by auto
  have f: "False \<or> \<not> path_exists empty_world (index_path unit_engine)"
    by (simp add: path_exists_def empty_world_def)
  have g: "embeddings unit_engine = Some unit_vectors" by (simp add: unit_engine_def)
  have h: "index_path unit_engine = ''catmat_hnsw_index.pkl''"
    "npy_name (embeddings_path unit_engine) = ''catmat_embeddings.npy''"
    by (simp_all add: unit_engine_def npy_name_def suffix_def)
  from artifacts_written_in_place
         [where force_rebuild = False and w = empty_world and self = unit_engine
            and encode = unit_encode and descriptions = toy_descriptions and starts = "[0, 2]"
            and sched = "[0, 1]" and n = 16 and m = unit_vectors]
       a b c d e f g unit_range unit_vectors_rows
  have "fst (generate_embeddings [0, 1] (Some 16) toy_descriptions False unit_engine empty_world) = None"
    "files (snd (snd (generate_embeddings [0, 1] (Some 16) toy_descriptions False unit_engine
                         empty_world)))
       = (files empty_world)(npy_name (embeddings_path unit_engine) \<mapsto> Torn 16)"
    "fst (create_hnsw_index (Some 16) False unit_engine empty_world) = None"
    "files (snd (snd (create_hnsw_index (Some 16) False unit_engine empty_world)))
       = (files empty_world)(index_path unit_engine \<mapsto> Torn 16)"
    by blast+
  with b g show ?thesis by (simp add: h)
qed

text \<open>
  Claim C4 as stated fails: with good artifacts cached at both paths, a forced rebuild that
  is killed as the write starts leaves an empty torn file in place of each.
\<close>

theorem killed_rebuild_destroys_cached_artifacts:
  "files cached_world ''catmat_embeddings.npy'' = Some (NpyFile [[1, 0]])
   \<and> files (snd (snd (generate_embeddings [0, 1] (Some 0) toy_descriptions True toy_engine
                         cached_world))) ''catmat_embeddings.npy'' = Some (Torn 0)
   \<and> files cached_world ''catmat_hnsw_index.pkl'' = Some (PickleFile unit_index)
   \<and> files (snd (snd (create_hnsw_index (Some 0) True unit_engine cached_world)))
        ''catmat_hnsw_index.pkl'' = Some (Torn 0)"
proof -
  have b: "model toy_engine = Some toy_encode" by (simp add: toy_engine_def)
  have c: "0 < batch_size toy_engine" "0 < n_workers toy_engine" by (simp_all add: toy_engine_def)
  have d: "toy_descriptions \<noteq> []" by (simp add: toy_descriptions_def)
  have e: "set [0, 1 :: nat] = {0..<length [0, 2 :: nat]}" by auto
  have g: "embeddings unit_engine = Some unit_vectors" by (simp add: unit_engine_def)
  have h: "index_path unit_engine = ''catmat_hnsw_index.pkl''" by (simp add: unit_engine_def)
  have "files (snd (snd (generate_embeddings [0, 1] (Some 0) toy_descriptions True toy_engine
                         cached_world)))
        = (files cached_world)(npy_name (embeddings_path toy_engine) \<mapsto> Torn 0)"
    using generate_embeddings_files(2)[OF _ b c d toy_range e, of True cached_world "Some 0"]
    by simp
  moreover have "files (snd (snd (create_hnsw_index (Some 0) True unit_engine cached_world)))
        = (files cached_world)(index_path unit_engine \<mapsto> Torn 0)"
    using create_hnsw_index_files(2)[OF _ g unit_vectors_rows, of True cached_world "Some 0"]
    by simp
  ultimately show ?thesis by (simp add: toy_npy_name h cached_world_def)
qed

lemma generate_embeddings_cached:
  "files w (embeddings_path self) = Some (NpyFile m) \<Longrightarrow>
   generate_embeddings sched kill descriptions False self w
   = (Some (Inr ()), self\<lparr>embeddings := Some m\<rparr>, log_event (LoadFile (embeddings_path self)) w)"
  by (simp add: generate_embeddings_def path_exists_def np_load_def)

lemma create_hnsw_index_cached:
  "files w (index_path self) = Some (PickleFile idx) \<Longrightarrow>
   create_hnsw_index kill False self w
   = (Some (Inr ()), self\<lparr>index := Some idx\<rparr>, log_event (LoadFile (index_path self)) w)"
  by (simp add: create_hnsw_index_def path_exists_def pickle_load_def)

lemma suffixless_first_build:
  "first_build
   = (Some (Inr ()),
      suffixless_engine\<lparr>embeddings := Some [toy_encode ''passage: parafuso sextavado'']\<rparr>,
      \<lparr>files = [''catmat_embeddings.npy'' \<mapsto>
                  NpyFile [toy_encode ''passage: parafuso sextavado'']],
       events = [Encode [''passage: parafuso sextavado''], SaveFile ''catmat_embeddings.npy'']\<rparr>)"
  by (simp add: first_build_def generate_embeddings_def suffixless_engine_def toy_engine_def
      empty_world_def path_exists_def py_range_def run_pool_def generate_embeddings_batch_def
      np_vstack_def np_save_def npy_name_def suffix_def write_in_place_def log_event_def
      Let_def upt_rec)

text \<open>
  Claim C9 at the embeddings path \<open>catmat_embeddings\<close>, which has no \<open>.npy\<close> suffix. The
  first build computes the embeddings and \<open>np.save\<close> writes them to
  \<open>catmat_embeddings.npy\<close>; no file is at the configured path afterwards, so the second
  build, also with \<open>force_rebuild = False\<close>, encodes the corpus and saves it again.
\<close>

theorem suffixless_path_rebuilds_every_time:
  "fst first_build = Some (Inr ())
   \<and> \<not> path_exists (snd (snd first_build)) ''catmat_embeddings''
   \<and> fst second_build = Some (Inr ())
   \<and> events (snd (snd second_build))
       = [Encode [''passage: parafuso sextavado''], SaveFile ''catmat_embeddings.npy'',
          Encode [''passage: parafuso sextavado''], SaveFile ''catmat_embeddings.npy'']"
  by (simp add: second_build_def suffixless_first_build generate_embeddings_def
      suffixless_engine_def toy_engine_def
      path_exists_def py_range_def run_pool_def generate_embeddings_batch_def
      np_vstack_def np_save_def npy_name_def suffix_def write_in_place_def log_event_def
      Let_def upt_rec)

text \<open>
  With an embeddings path that ends in \<open>.npy\<close>, and for the index at any path, the policy
  holds: after a build that computed and saved the artifact, a further build with
  \<open>force_rebuild = False\<close> loads the saved artifact and computes nothing.
\<close>

lemma second_build_loads_npy:
  assumes "force_rebuild \<or> \<not> path_exists w (embeddings_path self)"
    and "model self = Some encode"
    and "0 < batch_size self"
    and "0 < n_workers self"
    and "descriptions \<noteq> []"
    and "py_range (length descriptions) (batch_size self) = Inr starts"
    and "set sched = {0..<length starts}"
    and "suffix ''.npy'' (embeddings_path self)"
    and "generate_embeddings sched None descriptions force_rebuild self w = (r, self1, w1)"
  shows "generate_embeddings sched' kill' descriptions' False self1 w1
         = (Some (Inr ()), self1, log_event (LoadFile (embeddings_path self)) w1)"
proof -
  define embs where "embs = map (\<lambda>desc. encode (''passage: '' @ desc)) descriptions"
  from generate_embeddings_rebuild[OF assms(1-7), of None] obtain evs where
    "generate_embeddings sched None descriptions force_rebuild self w
        = (case np_save None (embeddings_path self) embs (w\<lparr>events := events w @ evs\<rparr>) of
             (False, w2) \<Rightarrow> (None, self\<lparr>embeddings := Some embs\<rparr>, w2)
           | (True, w2) \<Rightarrow> (Some (Inr ()), self\<lparr>embeddings := Some embs\<rparr>, w2))"
    unfolding embs_def by blast
  with assms(8,9) have s: "self1 = self\<lparr>embeddings := Some embs\<rparr>"
    and f: "files w1 (embeddings_path self) = Some (NpyFile embs)"
    by (auto simp: np_save_def write_in_place_def npy_name_def log_event_def)
  have p: "embeddings_path self1 = embeddings_path self" by (simp add: s)
  from generate_embeddings_cached[of w1 self1 embs sched' kill' descriptions'] f p
  show ?thesis by (simp add: s)
qed

lemma second_index_build_loads:
  assumes "force_rebuild \<or> \<not> path_exists w (index_path self)"
    and "embeddings self = Some m"
    and "\<forall>v \<in> set m. length v = shape1 m"
    and "create_hnsw_index None force_rebuild self w = (r, self1, w1)"
  shows "create_hnsw_index kill' False self1 w1
         = (Some (Inr ()), self1, log_event (LoadFile (index_path self)) w1)"
proof -
  define idx where
    "idx = \<lparr>dim = shape1 m, hnsw_M = hnsw_m self, metric_type = METRIC_L2, xb = m\<rparr>"
  from assms(4) have s: "self1 = self\<lparr>index := Some idx\<rparr>"
    and f: "files w1 (index_path self) = Some (PickleFile idx)"
    unfolding create_hnsw_index_rebuild[OF assms(1-3)] idx_def
    by (auto simp: pickle_dump_def write_in_place_def log_event_def)
  have p: "index_path self1 = index_path self" by (simp add: s)
  from create_hnsw_index_cached[of w1 self1 idx kill'] f p
  show ?thesis by (simp add: s)
qed

section \<open>Assembling the results\<close>

lemma iloc_in_range:
  "\<forall>i \<in> set ordinals. - int (length xs) \<le> i \<and> i < int (length xs) \<Longrightarrow>
   iloc xs ordinals
   = Inr (map (\<lambda>i. xs ! nat (if i < 0 then i + int (length xs) else i)) ordinals)"
  by (auto simp: iloc_def Let_def)

lemma iloc_out_of_range:
  "\<exists>i \<in> set ordinals. int (length xs) \<le> i \<or> i < - int (length xs) \<Longrightarrow>
   iloc xs ordinals = Inl IndexError"
  by (auto simp: iloc_def Let_def)

text \<open>
  Claim C6, as the code has it. An ordinal that is at least the size of the corpus, or
  below minus that size, makes the assembly raise \<open>IndexError\<close>, and no result is
  returned. When every ordinal lies from minus the size to the size minus one the assembly
  succeeds with one result per ordinal: a non-negative ordinal selects its record, and a
  negative one selects the record counted from the end of the corpus, without any error.
\<close>

theorem assemble_ordinal_bounds:
  "((\<exists>i \<in> set ordinals. int (length (rows df)) \<le> i \<or> i < - int (length (rows df)))
     \<longrightarrow> assemble now query df scores ordinals = Inl IndexError)
   \<and> ((\<forall>i \<in> set ordinals. - int (length (rows df)) \<le> i \<and> i < int (length (rows df)))
        \<and> length scores = length ordinals
     \<longrightarrow> (\<exists>res. assemble now query df scores ordinals = Inr res
           \<and> length (hits res) = length ordinals
           \<and> (\<forall>j < length ordinals.
                 source (hits res ! j)
                 = rows df ! nat (if ordinals ! j < 0 then ordinals ! j + int (length (rows df))
                                  else ordinals ! j)
               \<and> score (hits res ! j) = scores ! j)))"
proof (intro conjI impI)
  assume "\<exists>i \<in> set ordinals. int (length (rows df)) \<le> i \<or> i < - int (length (rows df))"
  then show "assemble now query df scores ordinals = Inl IndexError"
    by (simp add: assemble_def iloc_out_of_range)
next
  assume a: "(\<forall>i \<in> set ordinals. - int (length (rows df)) \<le> i \<and> i < int (length (rows df)))
        \<and> length scores = length ordinals"
  define recs where
    "recs = map (\<lambda>i. rows df ! nat (if i < 0 then i + int (length (rows df)) else i)) ordinals"
  have il: "iloc (rows df) ordinals = Inr recs"
    unfolding recs_def using a by (intro iloc_in_range) blast
  define res where
    "res = \<lparr>result_columns =
               final_columns
                 (add_column ''Query_Original''
                   (add_column ''Timestamp_Busca''
                     (add_column ''Score_Similaridade'' (columns df)))),
            hits = map (\<lambda>(r, s). \<lparr>score = s, source = r, timestamp_busca = now,
                                   query_original = query\<rparr>) (zip recs scores)\<rparr>"
  have r: "assemble now query df scores ordinals = Inr res"
    by (simp add: assemble_def il res_def)
  have l: "length (hits res) = length ordinals"
    using a by (simp add: res_def recs_def)
  have "source (hits res ! j)
          = rows df ! nat (if ordinals ! j < 0 then ordinals ! j + int (length (rows df))
                           else ordinals ! j)
        \<and> score (hits res ! j) = scores ! j" if "j < length ordinals" for j
    using that a by (simp add: res_def recs_def)
  with r l show "\<exists>res. assemble now query df scores ordinals = Inr res
           \<and> length (hits res) = length ordinals
           \<and> (\<forall>j < length ordinals.
                 source (hits res ! j)
                 = rows df ! nat (if ordinals ! j < 0 then ordinals ! j + int (length (rows df))
                                  else ordinals ! j)
               \<and> score (hits res ! j) = scores ! j)"
    by blast
qed

text \<open>
  Claim C6 (amended) on a corpus of three records: the ordinals 7 and -4 raise
  \<open>IndexError\<close>, the ordinals 0 and 1 select their records.
\<close>

theorem assemble_ordinal_bounds_witness:
  "assemble ''2025-01-01T00:00:00'' ''parafuso'' corpus3 [0, 1] [0, 7] = Inl IndexError
   \<and> assemble ''2025-01-01T00:00:00'' ''parafuso'' corpus3 [0, 1] [0, - 4] = Inl IndexError
   \<and> (\<exists>res. assemble ''2025-01-01T00:00:00'' ''parafuso'' corpus3 [0, 4 / 5] [0, 1] = Inr res
         \<and> length (hits res) = 2
         \<and> source (hits res ! 1) = rows corpus3 ! 1)"
proof -
  have a: "\<exists>i \<in> set [0, 7]. int (length (rows corpus3)) \<le> i \<or> i < - int (length (rows corpus3))"
    by (simp add: corpus3_def)
  have b: "\<exists>i \<in> set [0, - 4]. int (length (rows corpus3)) \<le> i \<or> i < - int (length (rows corpus3))"
    by (simp add: corpus3_def)
  have c: "(\<forall>i \<in> set [0, 1]. - int (length (rows corpus3)) \<le> i \<and> i < int (length (rows corpus3)))
           \<and> length [0, 4 / 5 :: rat] = length [0, 1 :: int]"
    by (simp add: corpus3_def)
  note second = assemble_ordinal_bounds
         [of "[0, 1]" corpus3 "''2025-01-01T00:00:00''" "''parafuso''" "[0, 4 / 5]",
          THEN conjunct2, THEN mp, OF c]
  from second have third:
    "\<exists>res. assemble ''2025-01-01T00:00:00'' ''parafuso'' corpus3 [0, 4 / 5] [0, 1] = Inr res
         \<and> length (hits res) = 2
         \<and> source (hits res ! 1) = rows corpus3 ! 1"
    apply (elim exE conjE)
    subgoal for res
      apply (rule exI[of _ res])
      apply (drule spec[of _ 1])
      apply simp
      done
    done
  have e1: "assemble ''2025-01-01T00:00:00'' ''parafuso'' corpus3 [0, 1] [0, 7] = Inl IndexError"
    by (rule assemble_ordinal_bounds
            [of "[0, 7]" corpus3 "''2025-01-01T00:00:00''" "''parafuso''" "[0, 1]",
             THEN conjunct1, THEN mp, OF a])
  have e2: "assemble ''2025-01-01T00:00:00'' ''parafuso'' corpus3 [0, 1] [0, - 4] = Inl IndexError"
    by (rule assemble_ordinal_bounds
            [of "[0, - 4]" corpus3 "''2025-01-01T00:00:00''" "''parafuso''" "[0, 1]",
             THEN conjunct1, THEN mp, OF b])
  from e1 e2 third show ?thesis by (intro conjI)
qed

text \<open>
  Claim C6 as stated fails: the ordinal \<open>-1\<close> (the padding of the index library) is outside
  the bounds of the corpus, and the assembly returns the last record for it.
\<close>

theorem assemble_negative_ordinal_selects_last_record:
  "assemble ''2025-01-01T00:00:00'' ''parafuso'' corpus3 [0, FLT_MAX] [0, - 1]
   = Inr \<lparr>result_columns =
             [''Score_Similaridade'', descricao_do_item, ''Query_Original'', ''Timestamp_Busca''],
          hits =
            [\<lparr>score = 0, source = [(descricao_do_item, Str ''parafuso sextavado'')],
              timestamp_busca = ''2025-01-01T00:00:00'', query_original = ''parafuso''\<rparr>,
             \<lparr>score = FLT_MAX, source = [(descricao_do_item, Str ''tinta acrilica branca'')],
              timestamp_busca = ''2025-01-01T00:00:00'', query_original = ''parafuso''\<rparr>]\<rparr>"
  by (simp add: assemble_def iloc_def corpus3_def final_columns_def add_column_def
      important_columns_def codigo_do_item_def descricao_do_item_def Let_def)


text \<open>
  End to end: a search with \<open>top_k = 5\<close> over a corpus of three records returns five
  results, the padded slots of the index being answered with the last record of the
  corpus and the padding score.
\<close>

lemma search_pads_with_last_record:
  "map_sum id (\<lambda>res. map (\<lambda>h. (score h, source h)) (hits res))
     (search ''2025-01-01T00:00:00'' built_engine ''parafuso'' corpus3 5)
   = Inr [(0, [(descricao_do_item, Str ''parafuso sextavado'')]),
          (4 / 5, [(descricao_do_item, Str ''cabo flexivel'')]),
          (2, [(descricao_do_item, Str ''tinta acrilica branca'')]),
          (FLT_MAX, [(descricao_do_item, Str ''tinta acrilica branca'')]),
          (FLT_MAX, [(descricao_do_item, Str ''tinta acrilica branca'')])]"
  by (simp add: search_def generate_query_embedding_def built_engine_model unit_encode_def
      engine_search_def built_engine_index index_search_def search_one_unit_5 dim_unit_index
      assemble_def iloc_def corpus3_def Let_def)



section \<open>The batch\<close>

lemma batch_loop_length:
  "length (batch_loop search_fn recommend str_of df top_k use_ai i item_list) = length item_list"
  by (induction item_list arbitrary: i) simp_all

lemma batch_loop_nth:
  "j < length item_list \<Longrightarrow>
   batch_loop search_fn recommend str_of df top_k use_ai i item_list ! j
   = process_item search_fn recommend str_of df top_k use_ai (i + j) (item_list ! j)"
proof (induction item_list arbitrary: i j)
  case Nil
  then show ?case by simp
next
  case (Cons item item_list)
  then show ?case by (cases j) simp_all
qed

lemma set_fold_add_column: "set (fold add_column cs acc) = set cs \<union> set acc"
  by (induction cs arbitrary: acc) (auto simp: add_column_def)

lemma pd_concat_columns:
  "set (batch_columns (pd_concat frames)) = (\<Union>f \<in> set frames. set (batch_columns f))"
proof -
  have "set (fold (\<lambda>f cols. fold add_column (batch_columns f) cols) frames acc)
        = (\<Union>f \<in> set frames. set (batch_columns f)) \<union> set acc" for acc
    by (induction frames arbitrary: acc) (auto simp: set_fold_add_column)
  then show ?thesis by (simp add: pd_concat_def)
qed

lemma error_df_columns: "set column_order \<subseteq> set (batch_columns (error_df i item msg))"
  by (auto simp: column_order_def error_df_def)

lemma item_results_rows:
  "row \<in> set (batch_rows (item_results i item recommendation res)) \<Longrightarrow>
   Status row = ''Sucesso'' \<and> Numero_Item row = i + 1 \<and> Item_Original row = strip item"
  by (auto simp: item_results_def)

text \<open>
  Claim C8. When the search of item \<open>j\<close> of a batch raises an exception, the batch still
  returns a frame: its rows are the rows of one group per item, in the order of the items;
  the group of item \<open>j\<close> is one row with the score 0 and the status \<open>Erro\<close>; and the group of
  every item whose search (and recommendation, when asked for) succeeds has one row per hit
  of that search, each with the status \<open>Sucesso\<close> and the number of the item.
\<close>

theorem process_batch_isolates_failure:
  assumes "j < length item_list"
    and "search_fn (strip (item_list ! j)) df top_k = Inl e"
  shows "\<exists>frame.
           process_batch search_fn recommend str_of item_list df top_k use_ai = Inr frame
         \<and> batch_rows frame
             = concat (map batch_rows
                 (batch_loop search_fn recommend str_of df top_k use_ai 0 item_list))
         \<and> length (batch_loop search_fn recommend str_of df top_k use_ai 0 item_list)
             = length item_list
         \<and> batch_rows (batch_loop search_fn recommend str_of df top_k use_ai 0 item_list ! j)
             = [\<lparr>Numero_Item = j + 1, Item_Original = strip (item_list ! j), Status = ''Erro'',
                 Ranking_Item = 1, Score_Similaridade = 0, Codigo_do_Item = Str ''N/A'',
                 Descricao_do_Item = Str (''Erro ao processar: '' @ str_of e),
                 Recomendacao_IA = ''Erro: '' @ str_of e, from_hit = None\<rparr>]
         \<and> (\<forall>i < length item_list. \<forall>res recommendation.
               search_fn (strip (item_list ! i)) df top_k = Inr res
               \<and> (if use_ai then recommend (strip (item_list ! i)) res = Inr recommendation
                   else recommendation = ''IA desabilitada'')
               \<longrightarrow> batch_loop search_fn recommend str_of df top_k use_ai 0 item_list ! i
                     = item_results i (item_list ! i) recommendation res
                   \<and> length (batch_rows (item_results i (item_list ! i) recommendation res))
                     = length (hits res)
                   \<and> (\<forall>row \<in> set (batch_rows (item_results i (item_list ! i) recommendation res)).
                         Status row = ''Sucesso'' \<and> Numero_Item row = i + 1))"
proof -
  define groups where
    "groups = batch_loop search_fn recommend str_of df top_k use_ai 0 item_list"
  have len: "length groups = length item_list"
    by (simp add: groups_def batch_loop_length)
  have gj: "groups ! j = error_df j (item_list ! j) (str_of e)"
    using batch_loop_nth[OF assms(1), of search_fn recommend str_of df top_k use_ai 0] assms(2)
    by (simp add: groups_def process_item_def)
  have ne: "groups \<noteq> []" using len assms(1) by auto
  have "groups ! j \<in> set groups" using len assms(1) by simp
  then have "set (batch_columns (groups ! j)) \<subseteq> set (batch_columns (pd_concat groups))"
    by (auto simp: pd_concat_columns)
  with error_df_columns[of j "item_list ! j" "str_of e"] gj
  have cols: "\<forall>col \<in> set column_order. col \<in> set (batch_columns (pd_concat groups))"
    by auto
  define frame where
    "frame = (pd_concat groups)\<lparr>batch_columns :=
        column_order @ filter (\<lambda>col. col \<notin> set column_order) (batch_columns (pd_concat groups))\<rparr>"
  have pb: "process_batch search_fn recommend str_of item_list df top_k use_ai = Inr frame"
    using ne cols by (simp add: process_batch_def groups_def[symmetric] Let_def frame_def)
  have rows: "batch_rows frame = concat (map batch_rows groups)"
    by (simp add: frame_def pd_concat_def)
  have ej: "batch_rows (groups ! j)
            = [\<lparr>Numero_Item = j + 1, Item_Original = strip (item_list ! j), Status = ''Erro'',
                Ranking_Item = 1, Score_Similaridade = 0, Codigo_do_Item = Str ''N/A'',
                Descricao_do_Item = Str (''Erro ao processar: '' @ str_of e),
                Recomendacao_IA = ''Erro: '' @ str_of e, from_hit = None\<rparr>]"
    by (simp add: gj error_df_def del: append.simps)
  have ok: "groups ! i = item_results i (item_list ! i) recommendation res
            \<and> length (batch_rows (item_results i (item_list ! i) recommendation res))
              = length (hits res)
            \<and> (\<forall>row \<in> set (batch_rows (item_results i (item_list ! i) recommendation res)).
                  Status row = ''Sucesso'' \<and> Numero_Item row = i + 1)"
    if "i < length item_list" "search_fn (strip (item_list ! i)) df top_k = Inr res"
      "if use_ai then recommend (strip (item_list ! i)) res = Inr recommendation
       else recommendation = ''IA desabilitada''"
    for i res recommendation
  proof -
    have "groups ! i = item_results i (item_list ! i) recommendation res"
      using batch_loop_nth[OF that(1), of search_fn recommend str_of df top_k use_ai 0] that(2,3)
      by (simp add: groups_def process_item_def split: if_splits)
    moreover have "length (batch_rows (item_results i (item_list ! i) recommendation res))
              = length (hits res)"
      by (simp add: item_results_def del: upt_Suc)
    ultimately show ?thesis using item_results_rows by blast
  qed
  from pb rows len ej ok show ?thesis unfolding groups_def by blast
qed


lemma five_items_groups:
  "map (\<lambda>r. (Numero_Item r, Status r, Score_Similaridade r))
     (concat (map batch_rows
        (batch_loop failing_search no_recommend error_text corpus3 5 False 0 five_items)))
   = [(1, ''Sucesso'', 1 / 2), (2, ''Sucesso'', 1 / 2), (3, ''Erro'', 0),
      (4, ''Sucesso'', 1 / 2), (5, ''Sucesso'', 1 / 2)]"
  by (simp add: five_items_def process_item_def failing_search_def strip_def is_space_def
      assemble_def iloc_def corpus3_def item_results_def error_df_def Let_def)

text \<open>
  Claim C8 at a batch of five items whose third search raises: five groups, the third
  marked \<open>Erro\<close> with score 0, the others \<open>Sucesso\<close>.
\<close>

theorem process_batch_isolates_failure_witness:
  "failing_search (strip (five_items ! 2)) corpus3 5 = Inl RuntimeError
   \<and> (\<exists>frame.
         process_batch failing_search no_recommend error_text five_items corpus3 5 False
           = Inr frame
       \<and> map (\<lambda>r. (Numero_Item r, Status r, Score_Similaridade r)) (batch_rows frame)
           = [(1, ''Sucesso'', 1 / 2), (2, ''Sucesso'', 1 / 2), (3, ''Erro'', 0),
              (4, ''Sucesso'', 1 / 2), (5, ''Sucesso'', 1 / 2)])"
proof -
  have a: "2 < length five_items" by (simp add: five_items_def)
  have b: "failing_search (strip (five_items ! 2)) corpus3 5 = Inl RuntimeError"
    by (simp add: five_items_def failing_search_def strip_def is_space_def)
  from process_batch_isolates_failure
         [where search_fn = failing_search and item_list = five_items and j = 2
            and df = corpus3 and top_k = 5 and e = RuntimeError and recommend = no_recommend
            and str_of = error_text and use_ai = False, OF a b]
  obtain frame where
    "process_batch failing_search no_recommend error_text five_items corpus3 5 False = Inr frame"
    "batch_rows frame
       = concat (map batch_rows
           (batch_loop failing_search no_recommend error_text corpus3 5 False 0 five_items))"
    by blast
  with b five_items_groups show ?thesis by simp
qed



end
